theory Spec2Isabelle
  imports Complex_Main
begin

section \<open>RCNN target assignment (frcnn/rcnn_target.py)\<close>

text \<open>
  A shallow embedding of \<^verbatim>\<open>RCNNTarget.proposal_target_layer\<close>. A two-dimensional
  NumPy array is a list of rows and carries its column count, so that an array with no
  rows still has a shape. The ground-truth boxes, the overlaps, the labels and the targets
  are reals, so rounding is not modelled. The entries of the proposals are of any type with
  a zero and the two comparisons the function applies to them: the reals, or the type
  \<open>float64\<close> below, which adds the infinities and NaN. Python exceptions are values of the
  type \<open>error\<close>, and the process-wide random state of \<^verbatim>\<open>np.random\<close> is passed
  explicitly and returned, also when the call raises.
\<close>

subsection \<open>Errors\<close>

datatype error = IndexError | ValueError

definition and_then :: "error + 'a \<Rightarrow> ('a \<Rightarrow> error + 'b) \<Rightarrow> error + 'b" where
  "and_then m f = (case m of Inl e \<Rightarrow> Inl e | Inr x \<Rightarrow> f x)"

subsection \<open>Arrays\<close>

record 'a ndarray =
  ncols :: nat
  rows :: "'a list list"

text \<open>The arrays NumPy can build: every row has \<open>ncols\<close> entries.\<close>

definition rectangular :: "'a ndarray \<Rightarrow> bool" where
  "rectangular a = list_all (\<lambda>r. length r = ncols a) (rows a)"

text \<open>
  Entries that need not be finite. The comparisons are those of the floating-point
  standard, which NumPy applies: every comparison with NaN is false, and the infinities
  lie below and above every finite number.
\<close>

datatype float64 = Finite real | PosInf | NegInf | NaN

instantiation float64 :: "{zero, ord}"
begin

definition zero_float64 :: float64 where
  "zero_float64 = Finite 0"

fun less_eq_float64 :: "float64 \<Rightarrow> float64 \<Rightarrow> bool" where
  "less_eq_float64 NaN b = False"
| "less_eq_float64 a NaN = False"
| "less_eq_float64 (Finite x) (Finite y) = (x \<le> y)"
| "less_eq_float64 NegInf b = True"
| "less_eq_float64 a PosInf = True"
| "less_eq_float64 a b = False"

fun less_float64 :: "float64 \<Rightarrow> float64 \<Rightarrow> bool" where
  "less_float64 NaN b = False"
| "less_float64 a NaN = False"
| "less_float64 (Finite x) (Finite y) = (x < y)"
| "less_float64 NegInf NegInf = False"
| "less_float64 PosInf PosInf = False"
| "less_float64 NegInf b = True"
| "less_float64 a PosInf = True"
| "less_float64 a b = False"

instance ..

end

text \<open>\<^verbatim>\<open>a[:, j]\<close>: IndexError when the array has no column \<open>j\<close>.\<close>

definition column :: "'a ndarray \<Rightarrow> nat \<Rightarrow> error + 'a list" where
  "column a j = (if j < ncols a then Inr (map (\<lambda>r. r ! j) (rows a)) else Inl IndexError)"

text \<open>\<^verbatim>\<open>a[:, 1:]\<close>: a slice never raises.\<close>

definition drop_first_column :: "'a ndarray \<Rightarrow> 'a ndarray" where
  "drop_first_column a = \<lparr>ncols = ncols a - 1, rows = map tl (rows a)\<rparr>"

text \<open>\<^verbatim>\<open>a[inds]\<close> with an integer index array: IndexError on an index out of range.\<close>

definition np_take :: "'a list \<Rightarrow> nat list \<Rightarrow> error + 'a list" where
  "np_take a inds =
     (if list_all (\<lambda>i. i < length a) inds then Inr (map ((!) a) inds) else Inl IndexError)"

definition take_rows :: "'a ndarray \<Rightarrow> nat list \<Rightarrow> error + 'a ndarray" where
  "take_rows a inds =
     and_then (np_take (rows a) inds) (\<lambda>rs. Inr \<lparr>ncols = ncols a, rows = rs\<rparr>)"

text \<open>\<^verbatim>\<open>a[inds] = vals\<close>: the values are written in order, a later write wins.\<close>

definition np_put :: "'a list \<Rightarrow> nat list \<Rightarrow> 'a list \<Rightarrow> error + 'a list" where
  "np_put a inds vals =
     (if length vals \<noteq> length inds then Inl ValueError
      else if \<not> list_all (\<lambda>i. i < length a) inds then Inl IndexError
      else Inr (fold (\<lambda>(i, v) b. b[i := v]) (zip inds vals) a))"

text \<open>\<^verbatim>\<open>np.where(mask)[0]\<close>: the indices at which the mask holds, increasing.\<close>

definition np_where :: "bool list \<Rightarrow> nat list" where
  "np_where bs = filter (\<lambda>i. bs ! i) [0..<length bs]"

text \<open>\<^verbatim>\<open>a[mask] = v\<close>, \<^verbatim>\<open>a[mask]\<close> and \<^verbatim>\<open>a[mask] = vals\<close> with a boolean mask
  of the length of \<open>a\<close>.\<close>

fun mask_fill :: "'a list \<Rightarrow> bool list \<Rightarrow> 'a \<Rightarrow> 'a list" where
  "mask_fill (x # xs) (b # bs) v = (if b then v else x) # mask_fill xs bs v"
| "mask_fill xs bs v = xs"

fun mask_select :: "'a list \<Rightarrow> bool list \<Rightarrow> 'a list" where
  "mask_select (x # xs) (b # bs) = (if b then x # mask_select xs bs else mask_select xs bs)"
| "mask_select xs bs = []"

fun mask_put :: "'a list \<Rightarrow> bool list \<Rightarrow> 'a list \<Rightarrow> 'a list" where
  "mask_put (x # xs) (True # bs) (v # vs) = v # mask_put xs bs vs"
| "mask_put (x # xs) (False # bs) vs = x # mask_put xs bs vs"
| "mask_put xs bs vs = xs"

text \<open>\<^verbatim>\<open>a.max(axis=1)\<close> and \<^verbatim>\<open>a.argmax(axis=1)\<close>: a reduction over an axis of
  length zero raises ValueError; \<open>argmax\<close> returns the first index of the maximum.\<close>

definition row_max :: "real list \<Rightarrow> real" where
  "row_max xs = (case xs of [] \<Rightarrow> 0 | x # ys \<Rightarrow> fold max ys x)"

fun argmax_from :: "real list \<Rightarrow> nat \<Rightarrow> real \<Rightarrow> nat \<Rightarrow> nat" where
  "argmax_from [] i best_v best_i = best_i"
| "argmax_from (x # xs) i best_v best_i =
     (if best_v < x then argmax_from xs (Suc i) x i else argmax_from xs (Suc i) best_v best_i)"

definition argmax :: "real list \<Rightarrow> nat" where
  "argmax xs = (case xs of [] \<Rightarrow> 0 | x # ys \<Rightarrow> argmax_from ys 1 x 0)"

definition max_axis1 :: "real ndarray \<Rightarrow> error + real list" where
  "max_axis1 a = (if ncols a = 0 then Inl ValueError else Inr (map row_max (rows a)))"

definition argmax_axis1 :: "real ndarray \<Rightarrow> error + nat list" where
  "argmax_axis1 a = (if ncols a = 0 then Inl ValueError else Inr (map argmax (rows a)))"

subsection \<open>The random source\<close>

text \<open>
  The state of \<^verbatim>\<open>np.random\<close> is the stream of raw draws still to come. A draw of
  \<^verbatim>\<open>rk_interval(max)\<close> is a number in \<open>0..max\<close>; \<^verbatim>\<open>permutation(n)\<close> shuffles
  \<open>0..<n\<close> from the last position down, swapping position \<open>i\<close> with a drawn
  position \<open>j \<le> i\<close>; \<^verbatim>\<open>choice(a, size, replace=False)\<close> raises ValueError when
  asked for more than \<open>a\<close> holds and otherwise returns the entries of \<open>a\<close> at the
  first \<open>size\<close> positions of a permutation.
\<close>

type_synonym rng = "nat \<Rightarrow> nat"

definition rk_interval :: "nat \<Rightarrow> rng \<Rightarrow> nat \<times> rng" where
  "rk_interval mx s = (s 0 mod Suc mx, \<lambda>n. s (Suc n))"

fun shuffle :: "nat \<Rightarrow> nat list \<Rightarrow> rng \<Rightarrow> nat list \<times> rng" where
  "shuffle 0 x s = (x, s)"
| "shuffle (Suc i) x s =
     (case rk_interval (Suc i) s of
        (j, s') \<Rightarrow> shuffle i (x[Suc i := x ! j, j := x ! Suc i]) s')"

definition permutation :: "nat \<Rightarrow> rng \<Rightarrow> nat list \<times> rng" where
  "permutation n s = shuffle (n - 1) [0..<n] s"

definition choice :: "nat list \<Rightarrow> int \<Rightarrow> rng \<Rightarrow> (error + nat list) \<times> rng" where
  "choice a sz s =
     (if sz < 0 \<or> int (length a) < sz then (Inl ValueError, s)
      else case permutation (length a) s of
             (p, s') \<Rightarrow> (Inr (map ((!) a) (take (nat sz) p)), s'))"

subsection \<open>Configuration and collaborators\<close>

text \<open>The fields \<^verbatim>\<open>__init__\<close> sets.\<close>

record RCNNTarget =
  num_classes :: nat
  foreground_fraction :: real
  batch_size :: int
  foreground_threshold :: real
  background_threshold_high :: real
  background_threshold_low :: real

definition RCNNTarget_init :: "nat \<Rightarrow> RCNNTarget" where
  "RCNNTarget_init n =
     \<lparr>num_classes = n, foreground_fraction = 0.25, batch_size = 64,
      foreground_threshold = 0.5, background_threshold_high = 0.5,
      background_threshold_low = 0.1\<rparr>"

text \<open>
  What the function uses and the file does not define, as parameters, so that the
  theorems hold for every choice of them: the image shape \<^verbatim>\<open>im_shape\<close>, which the
  source reads from an enclosing scope (\<^verbatim>\<open>im_shape[0]\<close> bounds \<open>y2\<close> and
  \<^verbatim>\<open>im_shape[1]\<close> bounds \<open>x2\<close>: height first, then width); the overlap of two boxes
  and the encoding of a box against another, which \<^verbatim>\<open>bbox_overlaps\<close> and
  \<^verbatim>\<open>bbox_transform\<close> apply to rows; and the generator behind
  \<^verbatim>\<open>np.random.seed\<close>, which maps a seed to a stream of draws. The overlaps and
  the encodings are reals: a collaborator that answers with NaN is not modelled.
\<close>

type_synonym target = "real \<times> real \<times> real \<times> real"

record 'a externals =
  im_shape :: "'a \<times> 'a"
  box_overlap :: "'a list \<Rightarrow> real list \<Rightarrow> real"
  box_encode :: "'a list \<Rightarrow> real list \<Rightarrow> target"
  random_seed :: "nat \<Rightarrow> rng"

text \<open>
  Modelled from the spec: \<^verbatim>\<open>bbox_overlaps\<close> of \<^verbatim>\<open>utils.bbox\<close>, the overlap function.
  For \<open>N\<close> boxes and \<open>M\<close> query boxes it returns an \<open>N\<close> by \<open>M\<close> array whose entry
  \<open>[i, j]\<close> is the overlap of box \<open>i\<close> and query box \<open>j\<close>, and an array with no
  column for no query box.
\<close>

definition bbox_overlaps ::
  "('a list \<Rightarrow> 'b list \<Rightarrow> real) \<Rightarrow> 'a ndarray \<Rightarrow> 'b ndarray \<Rightarrow> real ndarray" where
  "bbox_overlaps f boxes query_boxes =
     \<lparr>ncols = length (rows query_boxes),
      rows = map (\<lambda>b. map (f b) (rows query_boxes)) (rows boxes)\<rparr>"

text \<open>
  Modelled from the spec: \<^verbatim>\<open>bbox_transform\<close> of \<^verbatim>\<open>utils.bbox_transform\<close>, the
  box-to-offset encoder. For \<open>K\<close> source and \<open>K\<close> target boxes it returns \<open>K\<close> rows
  of four numbers, row \<open>i\<close> the encoding of source box \<open>i\<close> against target box \<open>i\<close>.
\<close>

definition bbox_transform ::
  "('a list \<Rightarrow> 'b list \<Rightarrow> target) \<Rightarrow> 'a ndarray \<Rightarrow> 'b ndarray \<Rightarrow> target list" where
  "bbox_transform f proposals gt_boxes = map (\<lambda>(p, g). f p g) (zip (rows proposals) (rows gt_boxes))"

text \<open>
  Modelled from the spec: \<^verbatim>\<open>unmap\<close> of \<^verbatim>\<open>utils.bbox_transform\<close>, the index-scatter
  utility. It returns \<open>count\<close> rows, the row \<open>data[i]\<close> at position \<open>inds[i]\<close> and
  \<open>fill\<close> elsewhere; its contract asks for as many indices as rows of data, each below
  \<open>count\<close>, and the model raises where NumPy's indexed assignment would.
\<close>

definition unmap :: "'a list \<Rightarrow> nat \<Rightarrow> nat list \<Rightarrow> 'a \<Rightarrow> error + 'a list" where
  "unmap data count inds fill = np_put (replicate count fill) inds data"

subsection \<open>The function, in the order of the source\<close>

text \<open>Lines 64-69: the indices of the proposals inside the image.\<close>

definition inds_inside_of :: "('a :: {zero, ord}) \<times> 'a \<Rightarrow> 'a ndarray \<Rightarrow> error + nat list" where
  "inds_inside_of shape all_proposals =
     and_then (column all_proposals 0) (\<lambda>x1.
     and_then (column all_proposals 1) (\<lambda>y1.
     and_then (column all_proposals 2) (\<lambda>x2.
     and_then (column all_proposals 3) (\<lambda>y2.
       Inr (np_where (map (\<lambda>i. 0 \<le> x1 ! i \<and> 0 \<le> y1 ! i \<and> x2 ! i < snd shape \<and> y2 ! i < fst shape)
                        [0..<length (rows all_proposals)]))))))"

text \<open>Lines 86-105: the label of every proposal from its row of overlaps.\<close>

definition label_proposals :: "RCNNTarget \<Rightarrow> real ndarray \<Rightarrow> real ndarray \<Rightarrow> error + real list" where
  "label_proposals self overlaps gt_boxes =
     (let proposals_label = replicate (length (rows overlaps)) (- 1) in
      and_then (max_axis1 overlaps) (\<lambda>max_overlaps.
      let proposals_label =
            mask_fill proposals_label
              (map (\<lambda>m. background_threshold_low self < m \<and> m < background_threshold_high self)
                 max_overlaps) 0;
          overlaps_with_label = map (\<lambda>m. foreground_threshold self \<le> m) max_overlaps in
      and_then (argmax_axis1 overlaps) (\<lambda>overlaps_best_label.
      and_then (column gt_boxes 4) (\<lambda>gt_labels.
      and_then (np_take gt_labels overlaps_best_label) (\<lambda>best_labels.
        Inr (mask_put proposals_label overlaps_with_label
               (mask_select (map (\<lambda>c. c + 1) best_labels) overlaps_with_label)))))))"

text \<open>Lines 59-105: filter, overlaps and labels; nothing here draws a random number.\<close>

definition assign_labels ::
  "('a :: {zero, ord}) externals \<Rightarrow> RCNNTarget \<Rightarrow> 'a ndarray \<Rightarrow> real ndarray
     \<Rightarrow> error + (nat list \<times> 'a ndarray \<times> real ndarray \<times> real list)" where
  "assign_labels ext self all_proposals gt_boxes =
     and_then (inds_inside_of (im_shape ext) all_proposals) (\<lambda>inds_inside.
     and_then (take_rows all_proposals inds_inside) (\<lambda>proposals.
     let overlaps = bbox_overlaps (box_overlap ext) proposals gt_boxes in
     and_then (label_proposals self overlaps gt_boxes) (\<lambda>proposals_label.
       Inr (inds_inside, proposals, overlaps, proposals_label))))"

text \<open>Lines 112-135: the subsampling. \<^verbatim>\<open>int(x)\<close> truncates towards zero. The warning of
  lines 122-126 changes neither the labels nor the random state and is left out.\<close>

definition py_int :: "real \<Rightarrow> int" where
  "py_int x = (if 0 \<le> x then \<lfloor>x\<rfloor> else \<lceil>x\<rceil>)"

definition num_fg :: "RCNNTarget \<Rightarrow> int" where
  "num_fg self = py_int (foreground_fraction self * real_of_int (batch_size self))"

definition fg_inds :: "real list \<Rightarrow> nat list" where
  "fg_inds proposals_label = np_where (map (\<lambda>l. 1 \<le> l) proposals_label)"

definition subsample_fg :: "RCNNTarget \<Rightarrow> real list \<Rightarrow> rng \<Rightarrow> (error + real list) \<times> rng" where
  "subsample_fg self proposals_label s =
     (if num_fg self < int (length (fg_inds proposals_label)) then
        (case choice (fg_inds proposals_label)
                (int (length (fg_inds proposals_label)) - num_fg self) s of
           (Inl e, s') \<Rightarrow> (Inl e, s')
         | (Inr disable_inds, s') \<Rightarrow>
             (and_then (np_take proposals_label disable_inds) (\<lambda>old.
                np_put proposals_label disable_inds (map uminus old)), s'))
      else (Inr proposals_label, s))"

definition num_bg :: "RCNNTarget \<Rightarrow> real list \<Rightarrow> int" where
  "num_bg self proposals_label = batch_size self - int (length (filter (\<lambda>l. 1 \<le> l) proposals_label))"

definition bg_inds :: "real list \<Rightarrow> nat list" where
  "bg_inds proposals_label = np_where (map (\<lambda>l. l = 0) proposals_label)"

definition subsample_bg :: "RCNNTarget \<Rightarrow> real list \<Rightarrow> rng \<Rightarrow> (error + real list) \<times> rng" where
  "subsample_bg self proposals_label s =
     (if num_bg self proposals_label < int (length (bg_inds proposals_label)) then
        (case choice (bg_inds proposals_label)
                (int (length (bg_inds proposals_label)) - num_bg self proposals_label) s of
           (Inl e, s') \<Rightarrow> (Inl e, s')
         | (Inr disable_inds, s') \<Rightarrow>
             (np_put proposals_label disable_inds (replicate (length disable_inds) (- 1)), s'))
      else (Inr proposals_label, s))"

definition subsample :: "RCNNTarget \<Rightarrow> real list \<Rightarrow> rng \<Rightarrow> (error + real list) \<times> rng" where
  "subsample self proposals_label s =
     (case subsample_fg self proposals_label s of
        (Inl e, s') \<Rightarrow> (Inl e, s')
      | (Inr proposals_label, s') \<Rightarrow> subsample_bg self proposals_label s')"

text \<open>Lines 145-175: the regression targets, and both results scattered back to the
  indexing of the input.\<close>

definition zero_target :: target where
  "zero_target = (0, 0, 0, 0)"

definition regression_targets ::
  "'a externals \<Rightarrow> 'a ndarray \<Rightarrow> real ndarray \<Rightarrow> nat list \<Rightarrow> 'a ndarray \<Rightarrow> real ndarray \<Rightarrow> real list
     \<Rightarrow> error + (real list \<times> target list)" where
  "regression_targets ext all_proposals gt_boxes inds_inside proposals overlaps proposals_label =
     (let proposal_with_target_idx = np_where (map (\<lambda>l. 0 < l) proposals_label) in
      and_then (argmax_axis1 overlaps) (\<lambda>top_gt_idx.
      and_then (np_take top_gt_idx proposal_with_target_idx) (\<lambda>gt_boxes_ids.
      and_then (take_rows gt_boxes gt_boxes_ids) (\<lambda>proposals_gt_boxes.
      and_then (take_rows proposals proposal_with_target_idx) (\<lambda>proposals_with_target.
      let bbox_targets = bbox_transform (box_encode ext) proposals_with_target proposals_gt_boxes in
      and_then (unmap bbox_targets (length proposals_label) proposal_with_target_idx zero_target)
        (\<lambda>bbox_targets.
      and_then (unmap bbox_targets (length (rows all_proposals)) inds_inside zero_target)
        (\<lambda>bbox_targets.
      and_then (unmap proposals_label (length (rows all_proposals)) inds_inside (- 1))
        (\<lambda>proposals_label.
        Inr (proposals_label, bbox_targets)))))))))"

text \<open>
  The whole call. The random state the call finds is discarded by
  \<^verbatim>\<open>np.random.seed(0)\<close>; the state it leaves is returned beside the result.
\<close>

definition proposal_target_layer ::
  "('a :: {zero, ord}) externals \<Rightarrow> RCNNTarget \<Rightarrow> 'a ndarray \<Rightarrow> real ndarray \<Rightarrow> rng
     \<Rightarrow> (error + (real list \<times> target list)) \<times> rng" where
  "proposal_target_layer ext self proposals gt_boxes s =
     (let s0 = random_seed ext 0;
          all_proposals = drop_first_column proposals in
      case assign_labels ext self all_proposals gt_boxes of
        Inl e \<Rightarrow> (Inl e, s0)
      | Inr (inds_inside, proposals, overlaps, proposals_label) \<Rightarrow>
          (case subsample self proposals_label s0 of
             (Inl e, s1) \<Rightarrow> (Inl e, s1)
           | (Inr proposals_label, s1) \<Rightarrow>
               (regression_targets ext all_proposals gt_boxes inds_inside proposals overlaps
                  proposals_label, s1)))"

subsection \<open>Collaborators and inputs of the examples\<close>

text \<open>
  Modelled from the spec: the overlap function (\<^verbatim>\<open>bbox_overlaps\<close> of \<^verbatim>\<open>utils.bbox\<close>),
  whose entries are the intersection over union of two boxes \<open>(x1, y1, x2, y2)\<close>. It
  reads the first four entries of a row. Only the closed examples use it.
\<close>

definition box_area :: "real list \<Rightarrow> real" where
  "box_area b = (b ! 2 - b ! 0) * (b ! 3 - b ! 1)"

definition iou :: "real list \<Rightarrow> real list \<Rightarrow> real" where
  "iou a b =
     (let iw = min (a ! 2) (b ! 2) - max (a ! 0) (b ! 0);
          ih = min (a ! 3) (b ! 3) - max (a ! 1) (b ! 1);
          inter = (if 0 < iw \<and> 0 < ih then iw * ih else 0)
      in inter / (box_area a + box_area b - inter))"

text \<open>
  Modelled from the spec: the box-to-offset encoder (\<^verbatim>\<open>bbox_transform\<close> of
  \<^verbatim>\<open>utils.bbox_transform\<close>): the offset of the centres divided by the width and the
  height of the source box, and the logarithms of the width and height ratios. Only the
  closed examples use it.
\<close>

definition encode :: "real list \<Rightarrow> real list \<Rightarrow> target" where
  "encode p g =
     (let w = p ! 2 - p ! 0; h = p ! 3 - p ! 1;
          gw = g ! 2 - g ! 0; gh = g ! 3 - g ! 1
      in (((g ! 0 + gw / 2) - (p ! 0 + w / 2)) / w,
          ((g ! 1 + gh / 2) - (p ! 1 + h / 2)) / h,
          ln (gw / w), ln (gh / h)))"

text \<open>A generator for the examples, and an image 100 high and 200 wide.\<close>

definition example_stream :: "nat \<Rightarrow> rng" where
  "example_stream seed n = seed + 7 * n + 3"

definition example_externals :: "real externals" where
  "example_externals =
     \<lparr>im_shape = (100, 200), box_overlap = iou, box_encode = encode,
      random_seed = example_stream\<rparr>"

text \<open>One ground-truth box of class 3, and five proposals (batch index first): overlaps
  0.9 and 0.3, one proposal outside the image, overlap 0.5, and one proposal away from the
  ground-truth box.\<close>

definition example_gt_boxes :: "real ndarray" where
  "example_gt_boxes = \<lparr>ncols = 5, rows = [[0, 0, 10, 10, 3]]\<rparr>"

definition example_proposals :: "real ndarray" where
  "example_proposals =
     \<lparr>ncols = 5,
      rows = [[0, 0, 0, 10, 9], [0, 0, 0, 10, 3], [0, - 1, 0, 10, 10], [0, 0, 0, 10, 5],
              [0, 50, 50, 60, 60]]\<rparr>"

text \<open>No ground-truth box at all.\<close>

definition no_gt_boxes :: "real ndarray" where
  "no_gt_boxes = \<lparr>ncols = 5, rows = []\<rparr>"

text \<open>The same proposals with two surplus columns, and ground truth with one.\<close>

definition wide_proposals :: "real ndarray" where
  "wide_proposals = \<lparr>ncols = 7, rows = map (\<lambda>r. r @ [7, 7]) (rows example_proposals)\<rparr>"

definition wide_gt_boxes :: "real ndarray" where
  "wide_gt_boxes = \<lparr>ncols = 6, rows = [[0, 0, 10, 10, 3, 7]]\<rparr>"

text \<open>Labels as line 105 leaves them: seventeen foreground proposals, fifty background
  ones and one ignored.\<close>

definition example_labels :: "real list" where
  "example_labels = replicate 17 2 @ replicate 50 0 @ [- 1]"

text \<open>A single proposal of overlap 0.3 with the ground-truth box.\<close>

definition background_proposal :: "real ndarray" where
  "background_proposal = \<lparr>ncols = 5, rows = [[0, 0, 0, 10, 3]]\<rparr>"

text \<open>Two ground-truth boxes, the second one the better match of the proposals.\<close>

definition two_gt_boxes :: "real ndarray" where
  "two_gt_boxes = \<lparr>ncols = 5, rows = [[0, 0, 20, 20, 1], [0, 0, 10, 10, 3]]\<rparr>"

text \<open>
  Examples with entries of type \<open>float64\<close>: the collaborators of the examples on the
  finite entries of a row (no row with another entry reaches them in the examples), a
  proposal whose \<open>x1\<close> is NaN beside the first proposal of the example, and proposals
  without the batch index, four columns where five are expected.
\<close>

definition finite_value :: "float64 \<Rightarrow> real" where
  "finite_value a = (case a of Finite x \<Rightarrow> x | _ \<Rightarrow> 0)"

definition float_externals :: "float64 externals" where
  "float_externals =
     \<lparr>im_shape = (Finite 100, Finite 200),
      box_overlap = (\<lambda>p. iou (map finite_value p)),
      box_encode = (\<lambda>p. encode (map finite_value p)),
      random_seed = example_stream\<rparr>"

definition nan_proposals :: "float64 ndarray" where
  "nan_proposals =
     \<lparr>ncols = 5,
      rows = [[Finite 0, Finite 0, Finite 0, Finite 10, Finite 9],
              [Finite 0, NaN, Finite 0, Finite 10, Finite 9]]\<rparr>"

definition narrow_float_proposals :: "float64 ndarray" where
  "narrow_float_proposals = \<lparr>ncols = 4, rows = [[Finite 0, Finite 0, Finite 10, Finite 9]]\<rparr>"

text \<open>A batch of four, half of it foreground: both draws run on a short array of labels.\<close>

definition small_batch :: RCNNTarget where
  "small_batch = (RCNNTarget_init 5)\<lparr>foreground_fraction := 0.5, batch_size := 4\<rparr>"

subsection \<open>Notions the statements use\<close>

text \<open>The test of lines 64-69 on one row \<open>(x1, y1, x2, y2)\<close>; \<open>shape\<close> is
  \<open>(height, width)\<close>.\<close>

definition inside_image :: "('a :: {zero, ord}) \<times> 'a \<Rightarrow> 'a list \<Rightarrow> bool" where
  "inside_image shape b = (0 \<le> b ! 0 \<and> 0 \<le> b ! 1 \<and> b ! 2 < snd shape \<and> b ! 3 < fst shape)"

text \<open>The label lines 86-105 leave on a proposal whose row of overlaps is \<open>ov\<close>: the
  foreground assignment is the later one and wins.\<close>

definition raw_label :: "RCNNTarget \<Rightarrow> real ndarray \<Rightarrow> real list \<Rightarrow> real" where
  "raw_label self gt_boxes ov =
     (if foreground_threshold self \<le> row_max ov then rows gt_boxes ! argmax ov ! 4 + 1
      else if background_threshold_low self < row_max ov \<and> row_max ov < background_threshold_high self
      then 0 else - 1)"

section \<open>Facts about the model\<close>

subsection \<open>The error monad\<close>

lemma and_then_Inr [simp]: "and_then (Inr x) f = f x"
  by (simp add: and_then_def)

lemma and_then_Inl [simp]: "and_then (Inl e) f = Inl e"
  by (simp add: and_then_def)

subsection \<open>Sampling without replacement\<close>

lemma shuffle_props:
  "i = 0 \<or> i < length x \<Longrightarrow>
   length (fst (shuffle i x s)) = length x \<and> set (fst (shuffle i x s)) = set x \<and>
   distinct (fst (shuffle i x s)) = distinct x"
proof (induction i arbitrary: x s)
  case 0
  then show ?case by simp
next
  case (Suc i)
  define j where "j = s 0 mod Suc (Suc i)"
  define y where "y = x[Suc i := x ! j, j := x ! Suc i]"
  have i: "Suc i < length x" using Suc.prems by simp
  have "j < Suc (Suc i)" unfolding j_def by (rule mod_less_divisor) simp
  then have j: "j < length x" using i by simp
  have y: "length y = length x" "set y = set x" "distinct y = distinct x"
    using i j by (simp_all add: y_def)
  have "i = 0 \<or> i < length y" using i y by simp
  from Suc.IH [OF this, of "\<lambda>n. s (Suc n)"] y
  show ?case by (simp add: rk_interval_def j_def y_def)
qed

lemma permutation_props:
  "length (fst (permutation n s)) = n \<and> set (fst (permutation n s)) = {0..<n} \<and>
   distinct (fst (permutation n s))"
proof -
  have "n - 1 = 0 \<or> n - 1 < length [0..<n]" by (cases n) simp_all
  from shuffle_props [OF this, of s] show ?thesis by (simp add: permutation_def)
qed

lemma choice_ok:
  assumes "0 \<le> sz" and "sz \<le> int (length a)"
  shows "\<exists>ys s'. choice a sz s = (Inr ys, s') \<and> length ys = nat sz \<and> set ys \<subseteq> set a \<and>
           (distinct a \<longrightarrow> distinct ys)"
proof -
  obtain p s' where p: "permutation (length a) s = (p, s')" by (cases "permutation (length a) s")
  from permutation_props [of "length a" s] p
  have pl: "length p = length a" and ps: "set p = {0..<length a}" and pd: "distinct p" by simp_all
  let ?ys = "map ((!) a) (take (nat sz) p)"
  have c: "choice a sz s = (Inr ?ys, s')" using assms p by (simp add: choice_def)
  have l: "length ?ys = nat sz" using assms pl by simp
  have inr: "\<forall>i\<in>set (take (nat sz) p). i < length a"
    using ps set_take_subset [of "nat sz" p] by auto
  then have sub: "set ?ys \<subseteq> set a" by auto
  have "distinct ?ys" if "distinct a"
    using that pd inr by (simp add: distinct_map inj_on_nth)
  with c l sub show ?thesis by blast
qed

lemma choice_ValueError:
  "sz < 0 \<or> int (length a) < sz \<Longrightarrow> choice a sz s = (Inl ValueError, s)"
  by (simp add: choice_def)

subsection \<open>Index arrays and masks\<close>

lemma np_where_eq: "np_where (map P xs) = filter (\<lambda>i. P (xs ! i)) [0..<length xs]"
  by (auto simp: np_where_def intro: filter_cong)

lemma length_np_where: "length (np_where (map P xs)) = length (filter P xs)"
proof -
  have "length (filter (\<lambda>i. P (xs ! i)) [0..<length xs]) =
        card (set (filter (\<lambda>i. P (xs ! i)) [0..<length xs]))"
    by (rule distinct_card [symmetric]) simp
  also have "set (filter (\<lambda>i. P (xs ! i)) [0..<length xs]) = {i. i < length xs \<and> P (xs ! i)}"
    by auto
  finally show ?thesis by (simp add: np_where_eq length_filter_conv_card)
qed

lemma set_np_where: "set (np_where (map P xs)) = {i. i < length xs \<and> P (xs ! i)}"
  by (auto simp: np_where_eq)

lemma distinct_np_where: "distinct (np_where bs)"
  by (simp add: np_where_def)

lemma sorted_np_where: "sorted (np_where bs)"
  by (simp add: np_where_def sorted_wrt_filter)

lemma fold_update_length:
  "length (fold (\<lambda>(i, v) b. b[i := v]) ivs a) = length a"
  by (induction ivs arbitrary: a) auto

lemma fold_update_notin:
  "i \<notin> fst ` set ivs \<Longrightarrow> fold (\<lambda>(i, v) b. b[i := v]) ivs a ! i = a ! i"
  by (induction ivs arbitrary: a) auto

lemma fold_update_in:
  "distinct inds \<Longrightarrow> length vals = length inds \<Longrightarrow> \<forall>i\<in>set inds. i < length a \<Longrightarrow>
   k < length inds \<Longrightarrow> fold (\<lambda>(i, v) b. b[i := v]) (zip inds vals) a ! (inds ! k) = vals ! k"
proof (induction inds arbitrary: vals a k)
  case Nil
  then show ?case by simp
next
  case (Cons i inds)
  then obtain v vs where vals: "vals = v # vs" by (cases vals) auto
  show ?case
  proof (cases k)
    case 0
    have "i \<notin> fst ` set (zip inds vs)" using Cons.prems(1) by (auto dest: set_zip_leftD)
    from fold_update_notin [OF this] Cons.prems(3) show ?thesis by (simp add: vals 0)
  next
    case (Suc k')
    with Cons show ?thesis by (simp add: vals)
  qed
qed

lemma np_put_ok:
  assumes "length vals = length inds" and "\<forall>i\<in>set inds. i < length a"
  shows "\<exists>b. np_put a inds vals = Inr b \<and> length b = length a \<and>
           (\<forall>i. i \<notin> set inds \<longrightarrow> b ! i = a ! i) \<and>
           (distinct inds \<longrightarrow> (\<forall>k<length inds. b ! (inds ! k) = vals ! k))"
proof -
  let ?b = "fold (\<lambda>(i, v) b. b[i := v]) (zip inds vals) a"
  have "np_put a inds vals = Inr ?b" using assms by (simp add: np_put_def list_all_iff)
  moreover have "length ?b = length a" by (rule fold_update_length)
  moreover have "?b ! i = a ! i" if "i \<notin> set inds" for i
    using that by (intro fold_update_notin) (auto dest: set_zip_leftD)
  moreover have "?b ! (inds ! k) = vals ! k" if "distinct inds" "k < length inds" for k
    using that assms by (intro fold_update_in) auto
  ultimately show ?thesis by blast
qed

lemma np_put_length: "np_put a inds vals = Inr b \<Longrightarrow> length b = length a"
  by (auto simp: np_put_def fold_update_length split: if_splits)

lemma mask_fill_eq:
  "length bs = length xs \<Longrightarrow> mask_fill xs bs v = map (\<lambda>(x, b). if b then v else x) (zip xs bs)"
  by (induction xs bs v rule: mask_fill.induct) auto

lemma mask_put_select:
  "length xs = length bs \<Longrightarrow> length bs = length vs \<Longrightarrow>
   mask_put xs bs (mask_select vs bs) = map (\<lambda>(x, b, v). if b then v else x) (zip xs (zip bs vs))"
proof (induction xs bs vs rule: list_induct3)
  case Nil
  then show ?case by simp
next
  case (Cons x xs b bs v vs)
  then show ?case by (cases b) simp_all
qed

subsection \<open>The maximum and the first index of the maximum\<close>

lemma argmax_from_spec:
  "length pre = i \<Longrightarrow> bi < i \<Longrightarrow> pre ! bi = bv \<Longrightarrow> \<forall>j<i. pre ! j \<le> bv \<Longrightarrow>
   \<forall>j<bi. pre ! j < bv \<Longrightarrow>
   argmax_from xs i bv bi < i + length xs \<and>
   (\<forall>j<i + length xs. (pre @ xs) ! j \<le> (pre @ xs) ! argmax_from xs i bv bi) \<and>
   (\<forall>j<argmax_from xs i bv bi. (pre @ xs) ! j < (pre @ xs) ! argmax_from xs i bv bi)"
proof (induction xs arbitrary: pre i bv bi)
  case Nil
  then show ?case by simp
next
  case (Cons x xs)
  show ?case
  proof (cases "bv < x")
    case True
    have "length (pre @ [x]) = Suc i" "i < Suc i" "(pre @ [x]) ! i = x"
      using Cons.prems(1) by (simp_all add: nth_append)
    moreover have "\<forall>j<Suc i. (pre @ [x]) ! j \<le> x"
      using Cons.prems(1,4) True by (auto simp: nth_append less_Suc_eq intro: less_imp_le order_trans)
    moreover have "\<forall>j<i. (pre @ [x]) ! j < x"
      using Cons.prems(1,4) True by (auto simp: nth_append intro: le_less_trans)
    ultimately show ?thesis
      using Cons.IH [of "pre @ [x]" "Suc i" i x] True by simp
  next
    case False
    have "length (pre @ [x]) = Suc i" "bi < Suc i" "(pre @ [x]) ! bi = bv"
      using Cons.prems(1,2,3) by (simp_all add: nth_append)
    moreover have "\<forall>j<Suc i. (pre @ [x]) ! j \<le> bv"
      using Cons.prems(1,4) False by (auto simp: nth_append less_Suc_eq)
    moreover have "\<forall>j<bi. (pre @ [x]) ! j < bv"
      using Cons.prems(1,2,5) by (auto simp: nth_append)
    ultimately show ?thesis
      using Cons.IH [of "pre @ [x]" "Suc i" bi bv] False by simp
  qed
qed

lemma argmax_first:
  assumes "xs \<noteq> []"
  shows "argmax xs < length xs \<and> (\<forall>j<length xs. xs ! j \<le> xs ! argmax xs) \<and>
         (\<forall>j<argmax xs. xs ! j < xs ! argmax xs)"
proof -
  obtain x ys where xs: "xs = x # ys" using assms by (cases xs) auto
  have "argmax_from ys 1 x 0 < 1 + length ys \<and>
     (\<forall>j<1 + length ys. ([x] @ ys) ! j \<le> ([x] @ ys) ! argmax_from ys 1 x 0) \<and>
     (\<forall>j<argmax_from ys 1 x 0. ([x] @ ys) ! j < ([x] @ ys) ! argmax_from ys 1 x 0)"
    by (rule argmax_from_spec) simp_all
  then show ?thesis by (simp add: xs argmax_def)
qed

lemma row_max_Max: "xs \<noteq> [] \<Longrightarrow> row_max xs = Max (set xs)"
proof (cases xs)
  case Nil
  assume "xs \<noteq> []"
  with Nil show ?thesis by simp
next
  case (Cons x ys)
  show ?thesis using Max.set_eq_fold [of x ys] by (simp add: Cons row_max_def)
qed

lemma row_max_argmax:
  assumes "xs \<noteq> []"
  shows "row_max xs = xs ! argmax xs"
proof -
  from argmax_first [OF assms]
  have a: "argmax xs < length xs" and b: "\<forall>j<length xs. xs ! j \<le> xs ! argmax xs" by simp_all
  have "Max (set xs) = xs ! argmax xs"
  proof (rule Max_eqI)
    show "finite (set xs)" by simp
    show "y \<le> xs ! argmax xs" if "y \<in> set xs" for y
      using that b by (auto simp: in_set_conv_nth)
    show "xs ! argmax xs \<in> set xs" using a by simp
  qed
  with assms show ?thesis by (simp add: row_max_Max)
qed

lemma argmax_overlap_row:
  "rows gt_boxes \<noteq> [] \<Longrightarrow> argmax (map (f p) (rows gt_boxes)) < length (rows gt_boxes)"
  using argmax_first [of "map (f p) (rows gt_boxes)"] by simp

subsection \<open>Filter and labels (lines 59-105)\<close>

lemma label_proposals_eq:
  assumes "ncols overlaps \<noteq> 0" and "4 < ncols gt_boxes"
    and "\<forall>r\<in>set (rows overlaps). argmax r < length (rows gt_boxes)"
  shows "label_proposals self overlaps gt_boxes =
     Inr (map (\<lambda>r. if foreground_threshold self \<le> row_max r then rows gt_boxes ! argmax r ! 4 + 1
                    else if background_threshold_low self < row_max r \<and>
                            row_max r < background_threshold_high self then 0
                    else - 1) (rows overlaps))"
proof -
  have t: "np_take (map (\<lambda>r. r ! 4) (rows gt_boxes)) (map argmax (rows overlaps)) =
      Inr (map (\<lambda>r. rows gt_boxes ! argmax r ! 4) (rows overlaps))"
    using assms(3) by (simp add: np_take_def list_all_iff)
  show ?thesis
    using assms(1,2)
    by (simp add: label_proposals_def max_axis1_def argmax_axis1_def column_def t Let_def
        mask_fill_eq mask_put_select zip_map_map zip_same_conv_map map_replicate_const [symmetric]
        del: replicate.simps)
qed

lemma label_proposals_errors:
  "ncols overlaps = 0 \<Longrightarrow> label_proposals self overlaps gt_boxes = Inl ValueError"
  "ncols overlaps \<noteq> 0 \<Longrightarrow> ncols gt_boxes \<le> 4 \<Longrightarrow> label_proposals self overlaps gt_boxes = Inl IndexError"
  by (simp_all add: label_proposals_def max_axis1_def argmax_axis1_def column_def Let_def)

lemma inds_inside_of_eq:
  "inds_inside_of shape a =
     (if ncols a \<le> 3 then Inl IndexError
      else Inr (filter (\<lambda>i. 0 \<le> rows a ! i ! 0 \<and> 0 \<le> rows a ! i ! 1 \<and>
                           rows a ! i ! 2 < snd shape \<and> rows a ! i ! 3 < fst shape)
                  [0..<length (rows a)]))"
  by (auto simp: inds_inside_of_def column_def np_where_def intro!: filter_cong)

lemma inside_image_tl:
  assumes "5 \<le> length r"
  shows "inside_image shape (tl r) \<longleftrightarrow>
         0 \<le> r ! 1 \<and> 0 \<le> r ! 2 \<and> r ! 3 < snd shape \<and> r ! 4 < fst shape"
proof -
  have "tl r ! 0 = r ! 1" "tl r ! 1 = r ! 2" "tl r ! 2 = r ! 3" "tl r ! 3 = r ! 4"
    using assms by (simp_all add: nth_tl eval_nat_numeral)
  then show ?thesis by (simp add: inside_image_def)
qed

lemma nan_compare [simp]: "\<not> a \<le> NaN" "\<not> NaN \<le> a" "\<not> a < NaN" "\<not> NaN < a"
  by (cases a; simp)+

lemma inside_image_nan:
  assumes "b ! j = NaN" and "j < 4"
  shows "\<not> inside_image shape b"
proof -
  from assms(2) have "j = 0 \<or> j = 1 \<or> j = 2 \<or> j = 3" by auto
  with assms(1) show ?thesis by (auto simp: inside_image_def)
qed

lemma assign_labels_eq:
  "assign_labels ext self a gt_boxes =
     (if ncols a \<le> 3 then Inl IndexError
      else if rows gt_boxes = [] then Inl ValueError
      else if ncols gt_boxes \<le> 4 then Inl IndexError
      else let inds = filter (\<lambda>i. inside_image (im_shape ext) (rows a ! i)) [0..<length (rows a)];
               props = \<lparr>ncols = ncols a, rows = map ((!) (rows a)) inds\<rparr>;
               ov = bbox_overlaps (box_overlap ext) props gt_boxes
           in Inr (inds, props, ov,
                   map (\<lambda>i. raw_label self gt_boxes (map (box_overlap ext (rows a ! i)) (rows gt_boxes)))
                     inds))"
proof -
  let ?inds = "filter (\<lambda>i. inside_image (im_shape ext) (rows a ! i)) [0..<length (rows a)]"
  let ?props = "\<lparr>ncols = ncols a, rows = map ((!) (rows a)) ?inds\<rparr>"
  let ?ov = "bbox_overlaps (box_overlap ext) ?props gt_boxes"
  have i: "inds_inside_of (im_shape ext) a = (if ncols a \<le> 3 then Inl IndexError else Inr ?inds)"
    by (simp add: inds_inside_of_eq inside_image_def)
  have t: "take_rows a ?inds = Inr ?props"
    by (simp add: take_rows_def np_take_def list_all_iff)
  have nc: "ncols ?ov = length (rows gt_boxes)" by (simp add: bbox_overlaps_def)
  have l: "label_proposals self ?ov gt_boxes =
      Inr (map (\<lambda>i. raw_label self gt_boxes (map (box_overlap ext (rows a ! i)) (rows gt_boxes))) ?inds)"
    if "rows gt_boxes \<noteq> []" "4 < ncols gt_boxes"
  proof -
    have "\<forall>r\<in>set (rows ?ov). argmax r < length (rows gt_boxes)"
      using that(1) by (auto simp: bbox_overlaps_def argmax_overlap_row)
    then have "label_proposals self ?ov gt_boxes = Inr (map (raw_label self gt_boxes) (rows ?ov))"
      using that nc by (simp add: label_proposals_eq raw_label_def [abs_def])
    then show ?thesis by (simp add: bbox_overlaps_def comp_def)
  qed
  show ?thesis
  proof (cases "ncols a \<le> 3")
    case True
    then show ?thesis by (simp add: assign_labels_def i)
  next
    case a: False
    show ?thesis
    proof (cases "rows gt_boxes = []")
      case True
      then have "label_proposals self ?ov gt_boxes = Inl ValueError"
        using nc by (simp add: label_proposals_errors)
      with a True show ?thesis by (simp add: assign_labels_def i t Let_def)
    next
      case g: False
      show ?thesis
      proof (cases "ncols gt_boxes \<le> 4")
        case True
        then have "label_proposals self ?ov gt_boxes = Inl IndexError"
          using nc g by (simp add: label_proposals_errors)
        with a g True show ?thesis by (simp add: assign_labels_def i t Let_def)
      next
        case False
        with a g l show ?thesis by (simp add: assign_labels_def i t Let_def)
      qed
    qed
  qed
qed

lemma assign_labels_InrD:
  assumes "assign_labels ext self a gt_boxes = Inr (inds, props, ov, labels)"
  shows "3 < ncols a" and "rows gt_boxes \<noteq> []" and "4 < ncols gt_boxes"
    and "inds = filter (\<lambda>i. inside_image (im_shape ext) (rows a ! i)) [0..<length (rows a)]"
    and "props = \<lparr>ncols = ncols a, rows = map ((!) (rows a)) inds\<rparr>"
    and "ov = bbox_overlaps (box_overlap ext) props gt_boxes"
    and "labels = map (\<lambda>i. raw_label self gt_boxes (map (box_overlap ext (rows a ! i)) (rows gt_boxes))) inds"
  using assms unfolding assign_labels_eq by (auto simp: Let_def split: if_splits)

subsection \<open>Subsampling (lines 112-135)\<close>

lemma count_after_disable:
  assumes len: "length b = length l"
    and D: "distinct D" "set D \<subseteq> {i. i < length l \<and> P (l ! i)}"
    and keep: "\<forall>i. i \<notin> set D \<longrightarrow> b ! i = l ! i"
    and off: "\<forall>i\<in>set D. \<not> P (b ! i)"
  shows "length (filter P b) + length D = length (filter P l)"
proof -
  have "{i. i < length b \<and> P (b ! i)} = {i. i < length l \<and> P (l ! i)} - set D"
    using len keep off by auto
  then have "card {i. i < length b \<and> P (b ! i)} = card {i. i < length l \<and> P (l ! i)} - card (set D)"
    using D(2) by (simp add: card_Diff_subset)
  moreover have "card (set D) \<le> card {i. i < length l \<and> P (l ! i)}"
    using D(2) by (intro card_mono) auto
  moreover have "card (set D) = length D" using D(1) by (simp add: distinct_card)
  ultimately show ?thesis by (simp add: length_filter_conv_card)
qed

lemma count_unchanged:
  assumes len: "length b = length l"
    and keep: "\<forall>i. i \<notin> set D \<longrightarrow> b ! i = l ! i"
    and off: "\<forall>i\<in>set D. \<not> Q (b ! i) \<and> \<not> Q (l ! i)"
  shows "length (filter Q b) = length (filter Q l)"
proof -
  have "{i. i < length b \<and> Q (b ! i)} = {i. i < length l \<and> Q (l ! i)}"
    using len keep off by (metis (lifting))
  then show ?thesis by (simp add: length_filter_conv_card)
qed

lemma length_fg_inds: "length (fg_inds l) = length (filter (\<lambda>x. 1 \<le> x) l)"
  by (simp add: fg_inds_def length_np_where)

lemma length_bg_inds: "length (bg_inds l) = length (filter (\<lambda>x. x = 0) l)"
  by (simp add: bg_inds_def length_np_where)

lemma subsample_fg_ok:
  assumes "0 \<le> num_fg self"
  shows "\<exists>l1 s1. subsample_fg self l s = (Inr l1, s1) \<and> length l1 = length l \<and>
          (\<forall>i. l1 ! i = l ! i \<or> (1 \<le> l ! i \<and> l1 ! i = - l ! i)) \<and>
          int (length (filter (\<lambda>x. 1 \<le> x) l1)) =
            min (int (length (filter (\<lambda>x. 1 \<le> x) l))) (num_fg self) \<and>
          length (filter (\<lambda>x. x = 0) l1) = length (filter (\<lambda>x. x = 0) l)"
proof (cases "num_fg self < int (length (fg_inds l))")
  case False
  then have "subsample_fg self l s = (Inr l, s)" by (simp add: subsample_fg_def)
  with False show ?thesis by (simp add: length_fg_inds)
next
  case True
  let ?sz = "int (length (fg_inds l)) - num_fg self"
  have "0 \<le> ?sz" "?sz \<le> int (length (fg_inds l))" using True assms by simp_all
  from choice_ok [OF this, of s] obtain D s1 where
    c: "choice (fg_inds l) ?sz s = (Inr D, s1)" and lD: "length D = nat ?sz"
    and sD: "set D \<subseteq> set (fg_inds l)" and dD: "distinct D"
    by (auto simp: fg_inds_def distinct_np_where)
  have fg: "set (fg_inds l) = {i. i < length l \<and> 1 \<le> l ! i}"
    by (simp add: fg_inds_def set_np_where)
  have inr: "\<forall>i\<in>set D. i < length l" using sD fg by auto
  then have t: "np_take l D = Inr (map ((!) l) D)" by (simp add: np_take_def list_all_iff)
  have "length (map uminus (map ((!) l) D)) = length D" by simp
  from np_put_ok [OF this inr] dD obtain b where
    p: "np_put l D (map uminus (map ((!) l) D)) = Inr b" and lb: "length b = length l"
    and keep: "\<forall>i. i \<notin> set D \<longrightarrow> b ! i = l ! i"
    and neg: "\<forall>k<length D. b ! (D ! k) = map uminus (map ((!) l) D) ! k"
    by blast
  have neg': "b ! i = - l ! i" if "i \<in> set D" for i
    using that neg by (auto simp: in_set_conv_nth)
  have res: "subsample_fg self l s = (Inr b, s1)"
    using True c t p by (simp add: subsample_fg_def)
  have rel: "\<forall>i. b ! i = l ! i \<or> (1 \<le> l ! i \<and> b ! i = - l ! i)"
    using keep neg' sD fg by blast
  have "length (filter (\<lambda>x. 1 \<le> x) b) + length D = length (filter (\<lambda>x. 1 \<le> x) l)"
  proof (rule count_after_disable [OF lb dD])
    show "set D \<subseteq> {i. i < length l \<and> 1 \<le> l ! i}" using sD fg by simp
    show "\<forall>i. i \<notin> set D \<longrightarrow> b ! i = l ! i" by (rule keep)
    show "\<forall>i\<in>set D. \<not> 1 \<le> b ! i" using neg' sD fg by fastforce
  qed
  then have cnt: "int (length (filter (\<lambda>x. 1 \<le> x) b)) =
      min (int (length (filter (\<lambda>x. 1 \<le> x) l))) (num_fg self)"
    using lD True assms by (simp add: length_fg_inds)
  have zero: "length (filter (\<lambda>x. x = 0) b) = length (filter (\<lambda>x. x = 0) l)"
  proof (rule count_unchanged [OF lb keep])
    show "\<forall>i\<in>set D. \<not> b ! i = 0 \<and> \<not> l ! i = 0" using neg' sD fg by fastforce
  qed
  from res lb rel cnt zero show ?thesis by blast
qed

lemma subsample_bg_ok:
  assumes "0 \<le> num_bg self l"
  shows "\<exists>l2 s2. subsample_bg self l s = (Inr l2, s2) \<and> length l2 = length l \<and>
          (\<forall>i. l2 ! i = l ! i \<or> (l ! i = 0 \<and> l2 ! i = - 1)) \<and>
          int (length (filter (\<lambda>x. x = 0) l2)) =
            min (int (length (filter (\<lambda>x. x = 0) l))) (num_bg self l) \<and>
          length (filter (\<lambda>x. 1 \<le> x) l2) = length (filter (\<lambda>x. 1 \<le> x) l)"
proof (cases "num_bg self l < int (length (bg_inds l))")
  case False
  then have "subsample_bg self l s = (Inr l, s)" by (simp add: subsample_bg_def)
  with False show ?thesis by (simp add: length_bg_inds)
next
  case True
  let ?sz = "int (length (bg_inds l)) - num_bg self l"
  have "0 \<le> ?sz" "?sz \<le> int (length (bg_inds l))" using True assms by simp_all
  from choice_ok [OF this, of s] obtain D s1 where
    c: "choice (bg_inds l) ?sz s = (Inr D, s1)" and lD: "length D = nat ?sz"
    and sD: "set D \<subseteq> set (bg_inds l)" and dD: "distinct D"
    by (auto simp: bg_inds_def distinct_np_where)
  have bg: "set (bg_inds l) = {i. i < length l \<and> l ! i = 0}"
    by (simp add: bg_inds_def set_np_where)
  have inr: "\<forall>i\<in>set D. i < length l" using sD bg by auto
  have "length (replicate (length D) (- 1 :: real)) = length D" by simp
  from np_put_ok [OF this inr] dD obtain b where
    p: "np_put l D (replicate (length D) (- 1)) = Inr b" and lb: "length b = length l"
    and keep: "\<forall>i. i \<notin> set D \<longrightarrow> b ! i = l ! i"
    and neg: "\<forall>k<length D. b ! (D ! k) = replicate (length D) (- 1) ! k"
    by blast
  have neg': "b ! i = - 1" if "i \<in> set D" for i
    using that neg by (auto simp: in_set_conv_nth)
  have res: "subsample_bg self l s = (Inr b, s1)"
    using True c p by (simp add: subsample_bg_def)
  have rel: "\<forall>i. b ! i = l ! i \<or> (l ! i = 0 \<and> b ! i = - 1)"
    using keep neg' sD bg by blast
  have "length (filter (\<lambda>x. x = 0) b) + length D = length (filter (\<lambda>x. x = 0) l)"
  proof (rule count_after_disable [OF lb dD])
    show "set D \<subseteq> {i. i < length l \<and> l ! i = 0}" using sD bg by simp
    show "\<forall>i. i \<notin> set D \<longrightarrow> b ! i = l ! i" by (rule keep)
    show "\<forall>i\<in>set D. \<not> b ! i = 0" using neg' by simp
  qed
  then have cnt: "int (length (filter (\<lambda>x. x = 0) b)) =
      min (int (length (filter (\<lambda>x. x = 0) l))) (num_bg self l)"
    using lD True assms by (simp add: length_bg_inds)
  have one: "length (filter (\<lambda>x. 1 \<le> x) b) = length (filter (\<lambda>x. 1 \<le> x) l)"
  proof (rule count_unchanged [OF lb keep])
    show "\<forall>i\<in>set D. \<not> 1 \<le> b ! i \<and> \<not> 1 \<le> l ! i" using neg' sD bg by fastforce
  qed
  from res lb rel cnt one show ?thesis by blast
qed

lemma num_fg_bounds:
  assumes "0 \<le> foreground_fraction self" and "foreground_fraction self \<le> 1"
    and "0 \<le> batch_size self"
  shows "num_fg self = \<lfloor>foreground_fraction self * real_of_int (batch_size self)\<rfloor>"
    and "0 \<le> num_fg self" and "num_fg self \<le> batch_size self"
proof -
  let ?x = "foreground_fraction self * real_of_int (batch_size self)"
  have x0: "0 \<le> ?x" using assms(1,3) by simp
  then show eq: "num_fg self = \<lfloor>?x\<rfloor>" by (simp add: num_fg_def py_int_def)
  show "0 \<le> num_fg self" using x0 eq by simp
  have "?x \<le> 1 * real_of_int (batch_size self)"
    using assms(2,3) by (intro mult_right_mono) simp_all
  then have "\<lfloor>?x\<rfloor> \<le> \<lfloor>real_of_int (batch_size self)\<rfloor>" by (intro floor_mono) simp
  then show "num_fg self \<le> batch_size self" using eq by simp
qed

lemma subsample_ok:
  assumes "0 \<le> num_fg self" and "num_fg self \<le> batch_size self"
  shows "\<exists>l2 s2. subsample self l s = (Inr l2, s2) \<and> length l2 = length l \<and>
          (\<forall>i. l2 ! i = l ! i \<or> (1 \<le> l ! i \<and> l2 ! i = - l ! i) \<or> (l ! i = 0 \<and> l2 ! i = - 1)) \<and>
          int (length (filter (\<lambda>x. 1 \<le> x) l2)) =
            min (int (length (filter (\<lambda>x. 1 \<le> x) l))) (num_fg self) \<and>
          int (length (filter (\<lambda>x. x = 0) l2)) =
            min (int (length (filter (\<lambda>x. x = 0) l)))
              (batch_size self - int (length (filter (\<lambda>x. 1 \<le> x) l2)))"
proof -
  from subsample_fg_ok [OF assms(1), of l s] obtain l1 s1 where
    fg: "subsample_fg self l s = (Inr l1, s1)" and len1: "length l1 = length l"
    and rel1: "\<forall>i. l1 ! i = l ! i \<or> (1 \<le> l ! i \<and> l1 ! i = - l ! i)"
    and cnt1: "int (length (filter (\<lambda>x. 1 \<le> x) l1)) =
                 min (int (length (filter (\<lambda>x. 1 \<le> x) l))) (num_fg self)"
    and zero1: "length (filter (\<lambda>x. x = 0) l1) = length (filter (\<lambda>x. x = 0) l)"
    by blast
  have "0 \<le> num_bg self l1" using cnt1 assms(2) by (simp add: num_bg_def)
  from subsample_bg_ok [OF this, of s1] obtain l2 s2 where
    bg: "subsample_bg self l1 s1 = (Inr l2, s2)" and len2: "length l2 = length l1"
    and rel2: "\<forall>i. l2 ! i = l1 ! i \<or> (l1 ! i = 0 \<and> l2 ! i = - 1)"
    and cnt2: "int (length (filter (\<lambda>x. x = 0) l2)) =
                 min (int (length (filter (\<lambda>x. x = 0) l1))) (num_bg self l1)"
    and one2: "length (filter (\<lambda>x. 1 \<le> x) l2) = length (filter (\<lambda>x. 1 \<le> x) l1)"
    by blast
  have res: "subsample self l s = (Inr l2, s2)" using fg bg by (simp add: subsample_def)
  have rel: "l2 ! i = l ! i \<or> (1 \<le> l ! i \<and> l2 ! i = - l ! i) \<or> (l ! i = 0 \<and> l2 ! i = - 1)" for i
    using rel1 [rule_format, of i] rel2 [rule_format, of i] by auto
  have c1: "int (length (filter (\<lambda>x. 1 \<le> x) l2)) =
      min (int (length (filter (\<lambda>x. 1 \<le> x) l))) (num_fg self)"
    using cnt1 one2 by simp
  have c0: "int (length (filter (\<lambda>x. x = 0) l2)) =
      min (int (length (filter (\<lambda>x. x = 0) l)))
        (batch_size self - int (length (filter (\<lambda>x. 1 \<le> x) l2)))"
    using cnt2 zero1 one2 by (simp add: num_bg_def)
  from res len1 len2 rel c1 c0 show ?thesis by auto
qed

lemma subsample_length:
  assumes "subsample self l s = (Inr l2, s2)"
  shows "length l2 = length l"
proof -
  from assms obtain l1 s1 where fg: "subsample_fg self l s = (Inr l1, s1)"
    and bg: "subsample_bg self l1 s1 = (Inr l2, s2)"
    by (auto simp: subsample_def split: prod.splits sum.splits)
  have "length l1 = length l"
    using fg by (auto simp: subsample_fg_def np_take_def and_then_def
        split: if_splits prod.splits sum.splits dest: np_put_length)
  moreover have "length l2 = length l1"
    using bg by (auto simp: subsample_bg_def split: if_splits prod.splits sum.splits dest: np_put_length)
  ultimately show ?thesis by simp
qed

subsection \<open>Targets and the whole call (lines 145-180)\<close>

lemma regression_targets_ok:
  assumes inds: "distinct inds" "\<forall>i\<in>set inds. i < length (rows a)"
    and props: "props = \<lparr>ncols = c, rows = map ((!) (rows a)) inds\<rparr>"
    and ov: "ov = bbox_overlaps (box_overlap ext) props gt_boxes"
    and gt: "rows gt_boxes \<noteq> []"
    and len: "length l2 = length inds"
  shows "\<exists>labels targets.
     regression_targets ext a gt_boxes inds props ov l2 = Inr (labels, targets) \<and>
     length labels = length (rows a) \<and> length targets = length (rows a) \<and>
     (\<forall>k<length inds.
        labels ! (inds ! k) = l2 ! k \<and>
        targets ! (inds ! k) =
          (if 0 < l2 ! k
           then box_encode ext (rows a ! (inds ! k))
                  (rows gt_boxes ! argmax (map (box_overlap ext (rows a ! (inds ! k))) (rows gt_boxes)))
           else zero_target)) \<and>
     (\<forall>i<length (rows a). i \<notin> set inds \<longrightarrow> labels ! i = - 1 \<and> targets ! i = zero_target)"
proof -
  define idx where "idx = np_where (map (\<lambda>x. 0 < x) l2)"
  define top where "top = map argmax (rows ov)"
  define h where "h k = box_encode ext (rows a ! (inds ! k))
      (rows gt_boxes ! argmax (map (box_overlap ext (rows a ! (inds ! k))) (rows gt_boxes)))" for k
  have sidx: "set idx = {k. k < length l2 \<and> 0 < l2 ! k}" by (simp add: idx_def set_np_where)
  have didx: "distinct idx" by (simp add: idx_def distinct_np_where)
  have rov: "rows ov = map (\<lambda>i. map (box_overlap ext (rows a ! i)) (rows gt_boxes)) inds"
    by (simp add: ov props bbox_overlaps_def comp_def)
  have ncov: "ncols ov \<noteq> 0" using gt by (simp add: ov bbox_overlaps_def)
  have ltop: "length top = length inds" by (simp add: top_def rov)
  have topk: "top ! k = argmax (map (box_overlap ext (rows a ! (inds ! k))) (rows gt_boxes))"
    if "k < length inds" for k using that by (simp add: top_def rov)
  have topr: "top ! k < length (rows gt_boxes)" if "k < length inds" for k
    using that gt by (simp add: topk argmax_overlap_row)
  have a1: "argmax_axis1 ov = Inr top" using ncov by (simp add: argmax_axis1_def top_def)
  have a2: "np_take top idx = Inr (map ((!) top) idx)"
    using sidx len ltop by (simp add: np_take_def list_all_iff)
  have a3: "take_rows gt_boxes (map ((!) top) idx) =
      Inr \<lparr>ncols = ncols gt_boxes, rows = map (\<lambda>k. rows gt_boxes ! (top ! k)) idx\<rparr>"
    using sidx len topr by (simp add: take_rows_def np_take_def list_all_iff comp_def)
  have a4: "take_rows props idx = Inr \<lparr>ncols = c, rows = map (\<lambda>k. rows a ! (inds ! k)) idx\<rparr>"
    using sidx len by (simp add: take_rows_def np_take_def list_all_iff props cong: map_cong)
  have a5: "bbox_transform (box_encode ext)
      \<lparr>ncols = c, rows = map (\<lambda>k. rows a ! (inds ! k)) idx\<rparr>
      \<lparr>ncols = ncols gt_boxes, rows = map (\<lambda>k. rows gt_boxes ! (top ! k)) idx\<rparr> = map h idx"
    using sidx len by (simp add: bbox_transform_def zip_map_map zip_same_conv_map h_def topk cong: map_cong)
  have "length (map h idx) = length idx" by simp
  moreover have "\<forall>i\<in>set idx. i < length (replicate (length l2) zero_target)" using sidx by simp
  ultimately obtain t1 where
    u1: "np_put (replicate (length l2) zero_target) idx (map h idx) = Inr t1"
    and lt1: "length t1 = length l2"
    and k1: "\<forall>i. i \<notin> set idx \<longrightarrow> t1 ! i = replicate (length l2) zero_target ! i"
    and p1: "\<forall>j<length idx. t1 ! (idx ! j) = map h idx ! j"
    using np_put_ok [of "map h idx" idx "replicate (length l2) zero_target"] didx by auto
  have t1k: "t1 ! k = (if 0 < l2 ! k then h k else zero_target)" if "k < length l2" for k
  proof (cases "k \<in> set idx")
    case True
    then obtain j where "j < length idx" "idx ! j = k" by (auto simp: in_set_conv_nth)
    with p1 True sidx show ?thesis by auto
  next
    case False
    with k1 that sidx show ?thesis by auto
  qed
  have "length t1 = length inds" using lt1 len by simp
  moreover have r2: "\<forall>i\<in>set inds. i < length (replicate (length (rows a)) zero_target)"
    using inds(2) by simp
  ultimately obtain t2 where
    u2: "np_put (replicate (length (rows a)) zero_target) inds t1 = Inr t2"
    and lt2: "length t2 = length (rows a)"
    and k2: "\<forall>i. i \<notin> set inds \<longrightarrow> t2 ! i = replicate (length (rows a)) zero_target ! i"
    and p2: "\<forall>j<length inds. t2 ! (inds ! j) = t1 ! j"
    using np_put_ok [of t1 inds "replicate (length (rows a)) zero_target"] inds(1) by auto
  have "\<forall>i\<in>set inds. i < length (replicate (length (rows a)) (- 1 :: real))"
    using inds(2) by simp
  with len obtain l3 where
    u3: "np_put (replicate (length (rows a)) (- 1)) inds l2 = Inr l3"
    and ll3: "length l3 = length (rows a)"
    and k3: "\<forall>i. i \<notin> set inds \<longrightarrow> l3 ! i = replicate (length (rows a)) (- 1) ! i"
    and p3: "\<forall>j<length inds. l3 ! (inds ! j) = l2 ! j"
    using np_put_ok [of l2 inds "replicate (length (rows a)) (- 1)"] inds(1) by auto
  have res: "regression_targets ext a gt_boxes inds props ov l2 = Inr (l3, t2)"
    by (simp add: regression_targets_def Let_def idx_def [symmetric] a1 a2 a3 a4 a5 unmap_def
        u1 u2 u3)
  have in_: "l3 ! (inds ! k) = l2 ! k \<and>
      t2 ! (inds ! k) = (if 0 < l2 ! k then h k else zero_target)" if "k < length inds" for k
    using that p2 p3 t1k len by simp
  have out: "l3 ! i = - 1 \<and> t2 ! i = zero_target" if "i < length (rows a)" "i \<notin> set inds" for i
    using that k2 k3 by simp
  from res ll3 lt2 in_ out show ?thesis unfolding h_def by blast
qed

lemma proposal_target_layer_InrD:
  assumes "proposal_target_layer ext self proposals gt_boxes s = (Inr (labels, targets), s')"
  shows "\<exists>inds props ov raw l2.
     assign_labels ext self (drop_first_column proposals) gt_boxes = Inr (inds, props, ov, raw) \<and>
     subsample self raw (random_seed ext 0) = (Inr l2, s') \<and>
     regression_targets ext (drop_first_column proposals) gt_boxes inds props ov l2 =
       Inr (labels, targets)"
  using assms
  by (auto simp: proposal_target_layer_def Let_def split: sum.splits prod.splits)

lemma rows_drop_first_column [simp]:
  "length (rows (drop_first_column a)) = length (rows a)"
  "i < length (rows a) \<Longrightarrow> rows (drop_first_column a) ! i = tl (rows a ! i)"
  "ncols (drop_first_column a) = ncols a - 1"
  by (simp_all add: drop_first_column_def)

text \<open>What a returning call did, stage by stage.\<close>

lemma proposal_target_layer_stages:
  assumes "proposal_target_layer ext self proposals gt_boxes s = (Inr (labels, targets), s')"
  shows "\<exists>inds props ov raw l2.
     assign_labels ext self (drop_first_column proposals) gt_boxes = Inr (inds, props, ov, raw) \<and>
     subsample self raw (random_seed ext 0) = (Inr l2, s') \<and>
     inds = filter (\<lambda>i. inside_image (im_shape ext) (tl (rows proposals ! i)))
              [0..<length (rows proposals)] \<and>
     rows props = map (\<lambda>i. tl (rows proposals ! i)) inds \<and>
     length raw = length inds \<and> length l2 = length inds \<and>
     4 < ncols proposals \<and> 4 < ncols gt_boxes \<and> rows gt_boxes \<noteq> [] \<and>
     length labels = length (rows proposals) \<and> length targets = length (rows proposals) \<and>
     (\<forall>k<length inds.
        labels ! (inds ! k) = l2 ! k \<and>
        targets ! (inds ! k) =
          (if 0 < l2 ! k
           then box_encode ext (tl (rows proposals ! (inds ! k)))
                  (rows gt_boxes !
                     argmax (map (box_overlap ext (tl (rows proposals ! (inds ! k)))) (rows gt_boxes)))
           else zero_target)) \<and>
     (\<forall>i<length (rows proposals). i \<notin> set inds \<longrightarrow> labels ! i = - 1 \<and> targets ! i = zero_target)"
proof -
  let ?a = "drop_first_column proposals"
  from proposal_target_layer_InrD [OF assms] obtain inds props ov raw l2 where
    al: "assign_labels ext self ?a gt_boxes = Inr (inds, props, ov, raw)"
    and ss: "subsample self raw (random_seed ext 0) = (Inr l2, s')"
    and rt: "regression_targets ext ?a gt_boxes inds props ov l2 = Inr (labels, targets)"
    by blast
  note d = assign_labels_InrD [OF al]
  have inds: "inds = filter (\<lambda>i. inside_image (im_shape ext) (tl (rows proposals ! i)))
              [0..<length (rows proposals)]"
    unfolding d(4) by (rule filter_cong) simp_all
  have di: "distinct inds" and ri: "\<forall>i\<in>set inds. i < length (rows ?a)"
    unfolding d(4) by simp_all
  have lraw: "length raw = length inds" using d(7) by simp
  have ll2: "length l2 = length inds" using subsample_length [OF ss] lraw by simp
  from regression_targets_ok [OF di ri d(5) d(6) d(2) ll2] rt
  have r: "length labels = length (rows ?a)" "length targets = length (rows ?a)"
    "\<forall>k<length inds.
        labels ! (inds ! k) = l2 ! k \<and>
        targets ! (inds ! k) =
          (if 0 < l2 ! k
           then box_encode ext (rows ?a ! (inds ! k))
                  (rows gt_boxes ! argmax (map (box_overlap ext (rows ?a ! (inds ! k))) (rows gt_boxes)))
           else zero_target)"
    "\<forall>i<length (rows ?a). i \<notin> set inds \<longrightarrow> labels ! i = - 1 \<and> targets ! i = zero_target"
    by auto
  have ik: "inds ! k < length (rows proposals)" if "k < length inds" for k
    using ri that by (auto simp: all_set_conv_all_nth)
  have nc: "4 < ncols proposals" using d(1) by simp
  have rp: "rows props = map (\<lambda>i. tl (rows proposals ! i)) inds"
    using ri by (simp add: d(5))
  from r ik have
    "\<forall>k<length inds.
        labels ! (inds ! k) = l2 ! k \<and>
        targets ! (inds ! k) =
          (if 0 < l2 ! k
           then box_encode ext (tl (rows proposals ! (inds ! k)))
                  (rows gt_boxes !
                     argmax (map (box_overlap ext (tl (rows proposals ! (inds ! k)))) (rows gt_boxes)))
           else zero_target)"
    by simp
  with al ss inds rp lraw ll2 nc d(2,3) r(1,2,4) show ?thesis by auto
qed

lemma proposal_target_layer_returns:
  assumes "0 \<le> foreground_fraction self" and "foreground_fraction self \<le> 1"
    and "0 \<le> batch_size self"
    and "4 < ncols proposals" and "4 < ncols gt_boxes" and "rows gt_boxes \<noteq> []"
  shows "\<exists>labels targets s'.
     proposal_target_layer ext self proposals gt_boxes s = (Inr (labels, targets), s')"
proof -
  let ?a = "drop_first_column proposals"
  note b = num_fg_bounds [OF assms(1-3)]
  have "\<not> ncols ?a \<le> 3" using assms(4) by simp
  with assms(5,6) obtain inds props ov raw where
    al: "assign_labels ext self ?a gt_boxes = Inr (inds, props, ov, raw)"
    unfolding assign_labels_eq by (auto simp: Let_def)
  note d = assign_labels_InrD [OF al]
  from subsample_ok [OF b(2,3), of raw "random_seed ext 0"] obtain l2 s2 where
    ss: "subsample self raw (random_seed ext 0) = (Inr l2, s2)" and ll2: "length l2 = length raw"
    by blast
  have di: "distinct inds" and ri: "\<forall>i\<in>set inds. i < length (rows ?a)"
    unfolding d(4) by simp_all
  have "length l2 = length inds" using ll2 d(7) by simp
  from regression_targets_ok [OF di ri d(5) d(6) d(2) this] obtain labels targets where
    "regression_targets ext ?a gt_boxes inds props ov l2 = Inr (labels, targets)" by blast
  with al ss show ?thesis by (simp add: proposal_target_layer_def Let_def)
qed

text \<open>The sibling of the call without ground truth: when no proposal is inside the image
  the call still returns, every label -1 and every target zero.\<close>

lemma no_proposal_inside:
  assumes "proposal_target_layer ext self proposals gt_boxes s = (Inr (labels, targets), s')"
    and "\<forall>i<length (rows proposals). \<not> inside_image (im_shape ext) (tl (rows proposals ! i))"
  shows "labels = replicate (length (rows proposals)) (- 1)"
    and "targets = replicate (length (rows proposals)) zero_target"
proof -
  from proposal_target_layer_stages [OF assms(1)] obtain inds where
    inds: "inds = filter (\<lambda>i. inside_image (im_shape ext) (tl (rows proposals ! i)))
              [0..<length (rows proposals)]"
    and len: "length labels = length (rows proposals)" "length targets = length (rows proposals)"
    and out: "\<forall>i<length (rows proposals). i \<notin> set inds \<longrightarrow> labels ! i = - 1 \<and> targets ! i = zero_target"
    by blast
  have "inds = []" unfolding inds using assms(2) by (simp add: filter_empty_conv)
  with out have "\<forall>i<length (rows proposals). labels ! i = - 1 \<and> targets ! i = zero_target" by simp
  with len show "labels = replicate (length (rows proposals)) (- 1)"
    and "targets = replicate (length (rows proposals)) zero_target"
    by (simp_all add: list_eq_iff_nth_eq)
qed

subsection \<open>The examples, evaluated\<close>

lemmas model_defs = proposal_target_layer_def assign_labels_def inds_inside_of_def column_def
  drop_first_column_def take_rows_def np_take_def np_put_def np_where_def bbox_overlaps_def
  bbox_transform_def unmap_def label_proposals_def max_axis1_def argmax_axis1_def row_max_def
  argmax_def subsample_def subsample_fg_def subsample_bg_def fg_inds_def bg_inds_def num_fg_def
  num_bg_def py_int_def regression_targets_def RCNNTarget_init_def choice_def permutation_def
  rk_interval_def

lemmas example_defs = example_externals_def example_gt_boxes_def example_proposals_def
  no_gt_boxes_def wide_proposals_def wide_gt_boxes_def two_gt_boxes_def iou_def box_area_def

lemma example_assign_labels:
  "assign_labels example_externals (RCNNTarget_init 5) (drop_first_column example_proposals)
     example_gt_boxes =
   Inr ([0, 1, 3, 4],
        \<lparr>ncols = 4, rows = [[0, 0, 10, 9], [0, 0, 10, 3], [0, 0, 10, 5], [50, 50, 60, 60]]\<rparr>,
        \<lparr>ncols = 1, rows = [[9 / 10], [3 / 10], [1 / 2], [0]]\<rparr>,
        [4, 0, 4, - 1])"
  by (simp add: model_defs example_defs Let_def eval_nat_numeral)

lemma example_assign_labels_two:
  "assign_labels example_externals (RCNNTarget_init 5) (drop_first_column example_proposals)
     two_gt_boxes =
   Inr ([0, 1, 3, 4],
        \<lparr>ncols = 4, rows = [[0, 0, 10, 9], [0, 0, 10, 3], [0, 0, 10, 5], [50, 50, 60, 60]]\<rparr>,
        \<lparr>ncols = 2, rows = [[9 / 40, 9 / 10], [3 / 40, 3 / 10], [1 / 8, 1 / 2], [0, 0]]\<rparr>,
        [4, 0, 4, - 1])"
  by (simp add: model_defs example_defs Let_def eval_nat_numeral)

lemma example_call:
  "proposal_target_layer example_externals (RCNNTarget_init 5) example_proposals example_gt_boxes s =
   (Inr ([4, 0, - 1, 4, - 1],
         [encode [0, 0, 10, 9] [0, 0, 10, 10, 3], zero_target, zero_target,
          encode [0, 0, 10, 5] [0, 0, 10, 10, 3], zero_target]),
    example_stream 0)"
  by (simp add: model_defs example_defs Let_def eval_nat_numeral)

lemma ex_rows:
  "tl (rows example_proposals ! 0) = [0, 0, 10, 9]"
  "tl (rows example_proposals ! 1) = [0, 0, 10, 3]"
  "rows example_gt_boxes = [[0, 0, 10, 10, 3]]"
  "box_overlap example_externals = iou"
  "box_encode example_externals = encode"
  by (simp_all add: example_defs)

text \<open>Three foreground labels where two are wanted, three background labels where two
  are wanted: one foreground label is negated and one background label becomes -1.\<close>

lemma example_small_batch:
  "fst (subsample small_batch [2, 4, 2, 0, 0, 0, - 1] (example_stream 0)) =
     Inr [2, - 4, 2, 0, - 1, 0, - 1]"
  by code_simp

section \<open>The claims\<close>

subsection \<open>C1\<close>

text \<open>
  C1. For a proposal inside the image (position \<open>k\<close> of \<open>inds_inside\<close>), with
  \<open>max_overlap\<close> the maximum of its row of overlaps and \<open>best_gt\<close> the first index at
  which the row takes that maximum (an index of a ground-truth box, no entry of the row
  greater than the entry there, every entry before it smaller): when the background
  interval ends where the foreground one begins or before (both thresholds are 0.5 in the
  source) and the classes are counted from 0, the label lines 86-105 assign is 0 exactly
  when \<open>low < max_overlap < high\<close>, the class of box \<open>best_gt\<close> plus 1 (a label of at
  least 1) exactly when \<open>foreground_threshold \<le> max_overlap\<close>, and -1 exactly in the
  remaining case; a proposal whose maximum overlap is the foreground threshold itself is
  foreground.
\<close>

theorem C1_raw_labels:
  assumes "assign_labels ext self all_proposals gt_boxes = Inr (inds_inside, proposals, overlaps, labels)"
    and "k < length inds_inside"
    and "background_threshold_high self \<le> foreground_threshold self"
    and "\<forall>g\<in>set (rows gt_boxes). 0 \<le> g ! 4"
  shows "let ov = map (box_overlap ext (rows all_proposals ! (inds_inside ! k))) (rows gt_boxes);
             max_overlap = Max (set ov);
             best_gt = argmax ov
         in length labels = length inds_inside \<and> rows overlaps ! k = ov \<and>
            best_gt < length (rows gt_boxes) \<and> ov ! best_gt = max_overlap \<and>
            (\<forall>j<length ov. ov ! j \<le> ov ! best_gt) \<and>
            (\<forall>j<best_gt. ov ! j < ov ! best_gt) \<and>
            (labels ! k = 0 \<longleftrightarrow>
               background_threshold_low self < max_overlap \<and> max_overlap < background_threshold_high self) \<and>
            (labels ! k = rows gt_boxes ! best_gt ! 4 + 1 \<and> 1 \<le> labels ! k \<longleftrightarrow>
               foreground_threshold self \<le> max_overlap) \<and>
            (labels ! k = - 1 \<longleftrightarrow>
               \<not> (background_threshold_low self < max_overlap \<and> max_overlap < background_threshold_high self) \<and>
               \<not> foreground_threshold self \<le> max_overlap) \<and>
            (max_overlap = foreground_threshold self \<longrightarrow>
               labels ! k = rows gt_boxes ! best_gt ! 4 + 1 \<and> labels ! k \<noteq> 0)"
proof -
  note d = assign_labels_InrD [OF assms(1)]
  define ov where "ov = map (box_overlap ext (rows all_proposals ! (inds_inside ! k))) (rows gt_boxes)"
  have ne: "ov \<noteq> []" using d(2) by (simp add: ov_def)
  have lov: "length ov = length (rows gt_boxes)" by (simp add: ov_def)
  have mx: "row_max ov = Max (set ov)" using ne by (rule row_max_Max)
  from argmax_first [OF ne]
  have am: "argmax ov < length (rows gt_boxes)" "\<forall>j<length ov. ov ! j \<le> ov ! argmax ov"
    "\<forall>j<argmax ov. ov ! j < ov ! argmax ov"
    using lov by simp_all
  have at: "ov ! argmax ov = Max (set ov)" using row_max_argmax [OF ne] mx by simp
  have cls: "0 \<le> rows gt_boxes ! argmax ov ! 4" using assms(4) am(1) by simp
  have lab: "labels ! k = raw_label self gt_boxes ov" using d(7) assms(2) by (simp add: ov_def)
  have row: "rows overlaps ! k = ov" using d(5,6) assms(2) by (simp add: bbox_overlaps_def ov_def)
  have len: "length labels = length inds_inside" using d(7) by simp
  have "(labels ! k = 0 \<longleftrightarrow>
           background_threshold_low self < Max (set ov) \<and> Max (set ov) < background_threshold_high self) \<and>
        (labels ! k = rows gt_boxes ! argmax ov ! 4 + 1 \<and> 1 \<le> labels ! k \<longleftrightarrow>
           foreground_threshold self \<le> Max (set ov)) \<and>
        (labels ! k = - 1 \<longleftrightarrow>
           \<not> (background_threshold_low self < Max (set ov) \<and> Max (set ov) < background_threshold_high self) \<and>
           \<not> foreground_threshold self \<le> Max (set ov)) \<and>
        (Max (set ov) = foreground_threshold self \<longrightarrow>
           labels ! k = rows gt_boxes ! argmax ov ! 4 + 1 \<and> labels ! k \<noteq> 0)"
    using cls assms(3) unfolding lab raw_label_def mx by auto
  with len row am at show ?thesis unfolding Let_def ov_def [symmetric] by blast
qed

theorem C1_raw_labels_witness:
  "(\<exists>inds props ov labels.
      assign_labels example_externals (RCNNTarget_init 5) (drop_first_column example_proposals)
        example_gt_boxes = Inr (inds, props, ov, labels) \<and>
      inds ! 2 = 3 \<and> Max (set (rows ov ! 2)) = foreground_threshold (RCNNTarget_init 5) \<and>
      labels ! 2 = 4 \<and> labels ! 2 \<noteq> 0) \<and>
   (\<exists>inds props ov labels.
      assign_labels example_externals (RCNNTarget_init 5) (drop_first_column example_proposals)
        two_gt_boxes = Inr (inds, props, ov, labels) \<and>
      rows ov ! 0 = [9 / 40, 9 / 10] \<and> argmax (rows ov ! 0) = 1 \<and>
      labels ! 0 = rows two_gt_boxes ! 1 ! 4 + 1 \<and> labels ! 0 = 4)"
proof -
  have k: "2 < length [0, 1, 3, 4 :: nat]" "0 < length [0, 1, 3, 4 :: nat]" by simp_all
  have t: "background_threshold_high (RCNNTarget_init 5) \<le> foreground_threshold (RCNNTarget_init 5)"
    by (simp add: RCNNTarget_init_def)
  have c: "\<forall>g\<in>set (rows example_gt_boxes). 0 \<le> g ! 4" "\<forall>g\<in>set (rows two_gt_boxes). 0 \<le> g ! 4"
    by (simp_all add: example_gt_boxes_def two_gt_boxes_def)
  have m: "Max (set (map (iou [0, 0, 10, 5]) [[0, 0, 10, 10, 3]])) = 1 / 2"
    by (simp add: iou_def box_area_def)
  from C1_raw_labels [OF example_assign_labels k(1) t c(1)] m
  have one: "[4, 0, 4, - 1] ! 2 = rows example_gt_boxes ! argmax (map (iou [0, 0, 10, 5]) [[0, 0, 10, 10, 3]]) ! 4 + (1 :: real) \<and>
        [4, 0, 4, - 1 :: real] ! 2 \<noteq> 0"
    by (simp add: Let_def example_defs drop_first_column_def RCNNTarget_init_def)
  have o: "map (iou [0, 0, 10, 9]) [[0, 0, 20, 20, 1], [0, 0, 10, 10, 3]] = [9 / 40, 9 / 10]"
    by (simp add: iou_def box_area_def)
  have r0: "rows (drop_first_column example_proposals) ! ([0, 1, 3, 4] ! 0) = [0, 0, 10, 9]"
    "box_overlap example_externals = iou" "rows two_gt_boxes = [[0, 0, 20, 20, 1], [0, 0, 10, 10, 3]]"
    by (simp_all add: example_defs drop_first_column_def)
  from C1_raw_labels [OF example_assign_labels_two k(2) t c(2)]
  have two: "argmax [9 / 40, 9 / 10 :: real] < length [[0, 0, 20, 20, 1], [0, 0, 10, 10, 3 :: real]]"
    unfolding Let_def r0 o by blast
  have am: "argmax [9 / 40, 9 / 10 :: real] = 1" by (simp add: argmax_def)
  show ?thesis
    unfolding example_assign_labels example_assign_labels_two
    using one m am two by (simp add: RCNNTarget_init_def two_gt_boxes_def)
qed

subsection \<open>C2\<close>

text \<open>
  C2. In the arrays a call returns, a proposal whose label is at most 0 has the
  regression target (0, 0, 0, 0), and a proposal whose label is positive has the encoding
  of its own box against the ground-truth box \<open>best_gt\<close>, the first index at which its
  row of overlaps is greatest.
\<close>

theorem C2_regression_targets:
  assumes "proposal_target_layer ext self proposals gt_boxes s = (Inr (labels, targets), s')"
    and "i < length (rows proposals)"
  shows "let box = tl (rows proposals ! i);
             ov = map (box_overlap ext box) (rows gt_boxes);
             best_gt = argmax ov
         in (labels ! i \<le> 0 \<longrightarrow> targets ! i = zero_target) \<and>
            (0 < labels ! i \<longrightarrow>
               targets ! i = box_encode ext box (rows gt_boxes ! best_gt) \<and>
               best_gt < length (rows gt_boxes) \<and>
               (\<forall>j<length ov. ov ! j \<le> ov ! best_gt) \<and>
               (\<forall>j<best_gt. ov ! j < ov ! best_gt))"
proof -
  define ov where "ov = map (box_overlap ext (tl (rows proposals ! i))) (rows gt_boxes)"
  from proposal_target_layer_stages [OF assms(1)] obtain inds l2 where
    gt: "rows gt_boxes \<noteq> []"
    and ins: "\<forall>k<length inds.
        labels ! (inds ! k) = l2 ! k \<and>
        targets ! (inds ! k) =
          (if 0 < l2 ! k
           then box_encode ext (tl (rows proposals ! (inds ! k)))
                  (rows gt_boxes !
                     argmax (map (box_overlap ext (tl (rows proposals ! (inds ! k)))) (rows gt_boxes)))
           else zero_target)"
    and out: "\<forall>i<length (rows proposals). i \<notin> set inds \<longrightarrow> labels ! i = - 1 \<and> targets ! i = zero_target"
    by blast
  have ne: "ov \<noteq> []" using gt by (simp add: ov_def)
  have lov: "length ov = length (rows gt_boxes)" by (simp add: ov_def)
  from argmax_first [OF ne]
  have am: "argmax ov < length (rows gt_boxes)" "\<forall>j<length ov. ov ! j \<le> ov ! argmax ov"
    "\<forall>j<argmax ov. ov ! j < ov ! argmax ov"
    using lov by simp_all
  have "(labels ! i \<le> 0 \<longrightarrow> targets ! i = zero_target) \<and>
        (0 < labels ! i \<longrightarrow>
           targets ! i = box_encode ext (tl (rows proposals ! i)) (rows gt_boxes ! argmax ov))"
  proof (cases "i \<in> set inds")
    case True
    then obtain k where "k < length inds" "inds ! k = i" by (auto simp: in_set_conv_nth)
    with ins [rule_format, of k] show ?thesis by (auto simp: ov_def)
  next
    case False
    with out assms(2) show ?thesis by simp
  qed
  with am show ?thesis unfolding Let_def ov_def [symmetric] by blast
qed

theorem C2_regression_targets_witness:
  "\<exists>labels targets s'.
     proposal_target_layer example_externals (RCNNTarget_init 5) example_proposals example_gt_boxes
       (example_stream 1) = (Inr (labels, targets), s') \<and>
     0 < labels ! 0 \<and> targets ! 0 = encode [0, 0, 10, 9] [0, 0, 10, 10, 3] \<and>
     argmax (map (iou [0, 0, 10, 9]) [[0, 0, 10, 10, 3]]) < 1 \<and>
     labels ! 1 \<le> 0 \<and> targets ! 1 = zero_target"
proof -
  have n: "0 < length (rows example_proposals)" "1 < length (rows example_proposals)"
    by (simp_all add: example_proposals_def)
  have p: "0 < [4, 0, - 1, 4, - 1 :: real] ! 0" "[4, 0, - 1, 4, - 1 :: real] ! 1 \<le> 0" by simp_all
  from C2_regression_targets [OF example_call n(1)] p(1)
  have a: "argmax (map (iou [0, 0, 10, 9]) [[0, 0, 10, 10, 3]]) < 1"
    unfolding Let_def ex_rows by simp
  from C2_regression_targets [OF example_call n(2)] p(2)
  have b: "[encode [0, 0, 10, 9] [0, 0, 10, 10, 3], zero_target, zero_target,
          encode [0, 0, 10, 5] [0, 0, 10, 10, 3], zero_target] ! 1 = zero_target"
    unfolding Let_def ex_rows by blast
  from a b show ?thesis unfolding example_call by simp
qed

subsection \<open>C3\<close>

text \<open>
  C3. Whatever was filtered out or subsampled, a call that returns gives one label and
  one regression target (four numbers) for each of the rows of its input; and it does
  return when the arrays have their five columns, there is a ground-truth box, the
  foreground fraction is between 0 and 1 and the batch size is not negative.
\<close>

theorem C3_output_lengths:
  "(\<forall>labels targets s'.
      proposal_target_layer ext self proposals gt_boxes s = (Inr (labels, targets), s') \<longrightarrow>
      length labels = length (rows proposals) \<and> length targets = length (rows proposals)) \<and>
   (0 \<le> foreground_fraction self \<and> foreground_fraction self \<le> 1 \<and> 0 \<le> batch_size self \<and>
    4 < ncols proposals \<and> 4 < ncols gt_boxes \<and> rows gt_boxes \<noteq> [] \<longrightarrow>
    (\<exists>labels targets s'.
       proposal_target_layer ext self proposals gt_boxes s = (Inr (labels, targets), s')))"
proof (intro conjI allI impI)
  fix labels targets s'
  assume r: "proposal_target_layer ext self proposals gt_boxes s = (Inr (labels, targets), s')"
  from proposal_target_layer_stages [OF r]
  show "length labels = length (rows proposals)" and "length targets = length (rows proposals)"
    by auto
next
  assume "0 \<le> foreground_fraction self \<and> foreground_fraction self \<le> 1 \<and> 0 \<le> batch_size self \<and>
    4 < ncols proposals \<and> 4 < ncols gt_boxes \<and> rows gt_boxes \<noteq> []"
  then show "\<exists>labels targets s'.
       proposal_target_layer ext self proposals gt_boxes s = (Inr (labels, targets), s')"
    by (intro proposal_target_layer_returns) simp_all
qed

theorem C3_output_lengths_witness:
  "\<exists>labels targets s'.
     proposal_target_layer example_externals (RCNNTarget_init 5) example_proposals example_gt_boxes
       (example_stream 1) = (Inr (labels, targets), s') \<and>
     length labels = 5 \<and> length targets = 5"
proof -
  have c: "0 \<le> foreground_fraction (RCNNTarget_init 5) \<and> foreground_fraction (RCNNTarget_init 5) \<le> 1 \<and>
      0 \<le> batch_size (RCNNTarget_init 5) \<and> 4 < ncols example_proposals \<and>
      4 < ncols example_gt_boxes \<and> rows example_gt_boxes \<noteq> []"
    by (simp add: RCNNTarget_init_def example_defs)
  from C3_output_lengths [of example_externals "RCNNTarget_init 5" example_proposals
      example_gt_boxes "example_stream 1"] c
  obtain labels targets s' where
    r: "proposal_target_layer example_externals (RCNNTarget_init 5) example_proposals
          example_gt_boxes (example_stream 1) = (Inr (labels, targets), s')"
    and l: "length labels = length (rows example_proposals)"
      "length targets = length (rows example_proposals)"
    by blast
  from l have "length labels = 5 \<and> length targets = 5" by (simp add: example_proposals_def)
  with r show ?thesis by blast
qed

subsection \<open>C4\<close>

text \<open>
  C4, where the code departs from the claim. With no ground-truth box the call does not
  return labels: for proposals with their five columns, valid or not, the maximum over
  the rows of overlaps (line 93), which have no entry, raises ValueError, before a label is
  assigned and before a draw.
\<close>

theorem C4_empty_ground_truth_raises:
  assumes "rows gt_boxes = []" and "4 < ncols proposals"
  shows "proposal_target_layer ext self proposals gt_boxes s = (Inl ValueError, random_seed ext 0)"
proof -
  have "\<not> ncols (drop_first_column proposals) \<le> 3" using assms(2) by simp
  then have "assign_labels ext self (drop_first_column proposals) gt_boxes = Inl ValueError"
    using assms(1) unfolding assign_labels_eq by simp
  then show ?thesis by (simp add: proposal_target_layer_def)
qed

theorem C4_empty_ground_truth_raises_witness:
  "rows no_gt_boxes = [] \<and>
   proposal_target_layer example_externals (RCNNTarget_init 5) example_proposals no_gt_boxes
     (example_stream 1) = (Inl ValueError, example_stream 0)"
proof -
  have g: "rows no_gt_boxes = []" by (simp add: no_gt_boxes_def)
  have c: "4 < ncols example_proposals" by (simp add: example_proposals_def)
  from C4_empty_ground_truth_raises [OF g c, of example_externals "RCNNTarget_init 5" "example_stream 1"] g
  show ?thesis by (simp add: example_externals_def)
qed

subsection \<open>C5\<close>

text \<open>
  C5. With a foreground fraction between 0 and 1 and a batch size that is not negative
  (64 and 0.25 in the source), the subsampling of lines 112-135 returns, and afterwards
  the labels that are at least 1 number at most \<open>floor (fraction * batch_size)\<close>, and
  the labels equal to 0 together with the labels that are at least 1 number at most
  \<open>batch_size\<close>.
\<close>

theorem C5_subsample_counts:
  assumes "0 \<le> foreground_fraction self" and "foreground_fraction self \<le> 1"
    and "0 \<le> batch_size self"
  shows "\<exists>l2 s2. subsample self l s = (Inr l2, s2) \<and>
           int (length (filter (\<lambda>x. 1 \<le> x) l2)) \<le>
             \<lfloor>foreground_fraction self * real_of_int (batch_size self)\<rfloor> \<and>
           int (length (filter (\<lambda>x. x = 0) l2)) + int (length (filter (\<lambda>x. 1 \<le> x) l2)) \<le>
             batch_size self"
proof -
  note b = num_fg_bounds [OF assms]
  from subsample_ok [OF b(2,3), of l s] obtain l2 s2 where
    res: "subsample self l s = (Inr l2, s2)"
    and c1: "int (length (filter (\<lambda>x. 1 \<le> x) l2)) =
               min (int (length (filter (\<lambda>x. 1 \<le> x) l))) (num_fg self)"
    and c0: "int (length (filter (\<lambda>x. x = 0) l2)) =
               min (int (length (filter (\<lambda>x. x = 0) l)))
                 (batch_size self - int (length (filter (\<lambda>x. 1 \<le> x) l2)))"
    by blast
  have "int (length (filter (\<lambda>x. 1 \<le> x) l2)) \<le> num_fg self" using c1 by simp
  moreover have "int (length (filter (\<lambda>x. x = 0) l2)) + int (length (filter (\<lambda>x. 1 \<le> x) l2))
      \<le> batch_size self" using c0 by linarith
  ultimately show ?thesis using res b(1) by auto
qed

theorem C5_subsample_counts_witness:
  "\<exists>l2 s2. subsample (RCNNTarget_init 5) example_labels (example_stream 0) = (Inr l2, s2) \<and>
           int (length (filter (\<lambda>x. 1 \<le> x) l2)) \<le> 16 \<and>
           int (length (filter (\<lambda>x. x = 0) l2)) + int (length (filter (\<lambda>x. 1 \<le> x) l2)) \<le> 64"
  using C5_subsample_counts [of "RCNNTarget_init 5" example_labels "example_stream 0"]
  by (simp add: RCNNTarget_init_def)

subsection \<open>C6\<close>

text \<open>
  C6, as the code has it. With a foreground fraction between 0 and 1 and a batch size
  that is not negative, and labels that are -1, 0 or at least 1 (what line 105 leaves for
  classes counted from 0), the subsampling returns labels of which: those at least 1 are
  unchanged foreground labels, \<open>min (number of foreground labels) num_fg\<close> many; those
  equal to 0 are unchanged background labels, \<open>min (number of background labels)
  (batch_size - surviving foreground)\<close> many, so fewer than \<open>batch_size\<close> minus the
  foreground count when there are not enough background proposals; and every other label is
  -1 or the negation of the proposal's foreground label.
\<close>

theorem C6_active_set:
  assumes "0 \<le> foreground_fraction self" and "foreground_fraction self \<le> 1"
    and "0 \<le> batch_size self"
    and "\<forall>x\<in>set l. x = - 1 \<or> x = 0 \<or> 1 \<le> x"
  shows "\<exists>l2 s2. subsample self l s = (Inr l2, s2) \<and> length l2 = length l \<and>
           int (length (filter (\<lambda>x. 1 \<le> x) l2)) =
             min (int (length (filter (\<lambda>x. 1 \<le> x) l))) (num_fg self) \<and>
           int (length (filter (\<lambda>x. x = 0) l2)) =
             min (int (length (filter (\<lambda>x. x = 0) l)))
               (batch_size self - int (length (filter (\<lambda>x. 1 \<le> x) l2))) \<and>
           (\<forall>i<length l.
              (1 \<le> l2 ! i \<longrightarrow> l2 ! i = l ! i) \<and>
              (l2 ! i = 0 \<longrightarrow> l ! i = 0) \<and>
              (\<not> 1 \<le> l2 ! i \<and> l2 ! i \<noteq> 0 \<longrightarrow> l2 ! i = - 1 \<or> (1 \<le> l ! i \<and> l2 ! i = - l ! i)))"
proof -
  note b = num_fg_bounds [OF assms(1-3)]
  from subsample_ok [OF b(2,3), of l s] obtain l2 s2 where
    res: "subsample self l s = (Inr l2, s2)" and len: "length l2 = length l"
    and rel: "\<forall>i. l2 ! i = l ! i \<or> (1 \<le> l ! i \<and> l2 ! i = - l ! i) \<or> (l ! i = 0 \<and> l2 ! i = - 1)"
    and c1: "int (length (filter (\<lambda>x. 1 \<le> x) l2)) =
               min (int (length (filter (\<lambda>x. 1 \<le> x) l))) (num_fg self)"
    and c0: "int (length (filter (\<lambda>x. x = 0) l2)) =
               min (int (length (filter (\<lambda>x. x = 0) l)))
                 (batch_size self - int (length (filter (\<lambda>x. 1 \<le> x) l2)))"
    by blast
  have "(1 \<le> l2 ! i \<longrightarrow> l2 ! i = l ! i) \<and> (l2 ! i = 0 \<longrightarrow> l ! i = 0) \<and>
        (\<not> 1 \<le> l2 ! i \<and> l2 ! i \<noteq> 0 \<longrightarrow> l2 ! i = - 1 \<or> (1 \<le> l ! i \<and> l2 ! i = - l ! i))"
    if "i < length l" for i
  proof -
    have "l ! i = - 1 \<or> l ! i = 0 \<or> 1 \<le> l ! i" using assms(4) that by simp
    with rel [rule_format, of i] show ?thesis by auto
  qed
  with res len c1 c0 show ?thesis by blast
qed

theorem C6_active_set_witness:
  "\<exists>l2 s2. subsample (RCNNTarget_init 5) example_labels (example_stream 0) = (Inr l2, s2) \<and>
     length l2 = 68 \<and>
     int (length (filter (\<lambda>x. 1 \<le> x) l2)) = 16 \<and>
     int (length (filter (\<lambda>x. x = 0) l2)) = 48"
proof -
  have n: "num_fg (RCNNTarget_init 5) = 16"
    by (simp add: num_fg_def py_int_def RCNNTarget_init_def)
  have c: "0 \<le> foreground_fraction (RCNNTarget_init 5)" "foreground_fraction (RCNNTarget_init 5) \<le> 1"
    "0 \<le> batch_size (RCNNTarget_init 5)"
    by (simp_all add: RCNNTarget_init_def)
  have v: "\<forall>x\<in>set example_labels. x = - 1 \<or> x = 0 \<or> 1 \<le> x"
    by (auto simp: example_labels_def)
  have f: "length (filter (\<lambda>x. 1 \<le> x) example_labels) = 17"
    "length (filter (\<lambda>x. x = 0) example_labels) = 50" "length example_labels = 68"
    by (simp_all add: example_labels_def)
  have b: "batch_size (RCNNTarget_init 5) = 64" by (simp add: RCNNTarget_init_def)
  from C6_active_set [OF c v, of "example_stream 0"] obtain l2 s2 where
    "subsample (RCNNTarget_init 5) example_labels (example_stream 0) = (Inr l2, s2)"
    "length l2 = 68" "int (length (filter (\<lambda>x. 1 \<le> x) l2)) = 16"
    "int (length (filter (\<lambda>x. x = 0) l2)) = min 50 (64 - int (length (filter (\<lambda>x. 1 \<le> x) l2)))"
    unfolding n f b by auto
  then show ?thesis by (intro exI [of _ l2] exI [of _ s2]) simp
qed

text \<open>
  The claim as the spec words it fails: a single background proposal (overlap 0.3 with
  the only ground-truth box) is labelled 0 and survives the subsampling alone, so one
  background label stays where \<open>batch_size\<close> minus the foreground count is 64.
\<close>

theorem C6_background_count_counterexample:
  "fst (proposal_target_layer example_externals (RCNNTarget_init 5) background_proposal
          example_gt_boxes (example_stream 0)) = Inr ([0], [zero_target]) \<and>
   fst (subsample (RCNNTarget_init 5) [0] (example_stream 0)) = Inr [0] \<and>
   int (length (filter (\<lambda>x. x = 0) [0 :: real])) \<noteq>
     batch_size (RCNNTarget_init 5) - int (length (filter (\<lambda>x. 1 \<le> x) [0 :: real]))"
  by (simp add: model_defs example_defs background_proposal_def Let_def eval_nat_numeral)

subsection \<open>C7\<close>

text \<open>
  C7. Two calls on the same proposals and ground-truth boxes return the same labels and
  regression targets, whatever state the random source was in before each: the call
  seeds it afresh before it draws. In particular a second call, started in the state the
  first one left, repeats the first result.
\<close>

theorem C7_deterministic:
  "proposal_target_layer ext self proposals gt_boxes s =
     proposal_target_layer ext self proposals gt_boxes s' \<and>
   fst (proposal_target_layer ext self proposals gt_boxes
          (snd (proposal_target_layer ext self proposals gt_boxes s))) =
     fst (proposal_target_layer ext self proposals gt_boxes s)"
  by (simp add: proposal_target_layer_def)

theorem C7_deterministic_witness:
  "proposal_target_layer example_externals (RCNNTarget_init 5) example_proposals example_gt_boxes
     (example_stream 1) =
   proposal_target_layer example_externals (RCNNTarget_init 5) example_proposals example_gt_boxes
     (example_stream 2)"
  using C7_deterministic [of example_externals "RCNNTarget_init 5" example_proposals
      example_gt_boxes "example_stream 1" "example_stream 2"]
  by simp

subsection \<open>C8\<close>

text \<open>
  C8. With \<open>im_shape = (height, width)\<close>, the proposals kept for labelling are exactly
  those with \<open>0 \<le> x1\<close>, \<open>0 \<le> y1\<close>, \<open>x2 < width\<close> and \<open>y2 < height\<close> (columns 1 to 4
  of the input, after the batch index), in their order; the labels are computed and
  subsampled for them alone and come back at their positions; and every proposal the
  filter excludes has label -1 and regression target (0, 0, 0, 0) in the returned arrays.
\<close>

theorem C8_outside_image:
  assumes "proposal_target_layer ext self proposals gt_boxes s = (Inr (labels, targets), s')"
    and "rectangular proposals"
  shows "\<exists>inds props ov raw l2.
     assign_labels ext self (drop_first_column proposals) gt_boxes = Inr (inds, props, ov, raw) \<and>
     subsample self raw (random_seed ext 0) = (Inr l2, s') \<and>
     inds = filter (\<lambda>i. 0 \<le> rows proposals ! i ! 1 \<and> 0 \<le> rows proposals ! i ! 2 \<and>
                         rows proposals ! i ! 3 < snd (im_shape ext) \<and>
                         rows proposals ! i ! 4 < fst (im_shape ext))
              [0..<length (rows proposals)] \<and>
     rows props = map (\<lambda>i. tl (rows proposals ! i)) inds \<and>
     length raw = length inds \<and>
     (\<forall>k<length inds. labels ! (inds ! k) = l2 ! k) \<and>
     (\<forall>i<length (rows proposals). i \<notin> set inds \<longrightarrow> labels ! i = - 1 \<and> targets ! i = zero_target)"
proof -
  from proposal_target_layer_stages [OF assms(1)] obtain inds props ov raw l2 where
    al: "assign_labels ext self (drop_first_column proposals) gt_boxes = Inr (inds, props, ov, raw)"
    and ss: "subsample self raw (random_seed ext 0) = (Inr l2, s')"
    and inds: "inds = filter (\<lambda>i. inside_image (im_shape ext) (tl (rows proposals ! i)))
              [0..<length (rows proposals)]"
    and rp: "rows props = map (\<lambda>i. tl (rows proposals ! i)) inds"
    and lraw: "length raw = length inds"
    and nc: "4 < ncols proposals"
    and ins: "\<forall>k<length inds. labels ! (inds ! k) = l2 ! k"
    and out: "\<forall>i<length (rows proposals). i \<notin> set inds \<longrightarrow> labels ! i = - 1 \<and> targets ! i = zero_target"
    by blast
  have "5 \<le> length (rows proposals ! i)" if "i < length (rows proposals)" for i
    using assms(2) nc that by (simp add: rectangular_def list_all_length)
  then have "inds = filter (\<lambda>i. 0 \<le> rows proposals ! i ! 1 \<and> 0 \<le> rows proposals ! i ! 2 \<and>
                         rows proposals ! i ! 3 < snd (im_shape ext) \<and>
                         rows proposals ! i ! 4 < fst (im_shape ext))
              [0..<length (rows proposals)]"
    unfolding inds by (intro filter_cong refl) (simp add: inside_image_tl)
  with al ss rp lraw ins out show ?thesis by blast
qed

theorem C8_outside_image_witness:
  "\<exists>labels targets s'.
     proposal_target_layer example_externals (RCNNTarget_init 5) example_proposals example_gt_boxes
       (example_stream 1) = (Inr (labels, targets), s') \<and>
     rows example_proposals ! 2 ! 1 < 0 \<and> labels ! 2 = - 1 \<and> targets ! 2 = zero_target"
proof -
  have r: "rectangular example_proposals" by (simp add: rectangular_def example_proposals_def)
  have x: "rows example_proposals ! 2 ! 1 < 0" by (simp add: example_proposals_def)
  have n: "2 < length (rows example_proposals)" by (simp add: example_proposals_def)
  from C8_outside_image [OF example_call r] obtain inds where
    i: "inds = filter (\<lambda>i. 0 \<le> rows example_proposals ! i ! 1 \<and> 0 \<le> rows example_proposals ! i ! 2 \<and>
                         rows example_proposals ! i ! 3 < snd (im_shape example_externals) \<and>
                         rows example_proposals ! i ! 4 < fst (im_shape example_externals))
              [0..<length (rows example_proposals)]"
    and o: "\<forall>i<length (rows example_proposals). i \<notin> set inds \<longrightarrow>
        [4, 0, - 1, 4, - 1 :: real] ! i = - 1 \<and>
        [encode [0, 0, 10, 9] [0, 0, 10, 10, 3], zero_target, zero_target,
          encode [0, 0, 10, 5] [0, 0, 10, 10, 3], zero_target] ! i = zero_target"
    by blast
  have "2 \<notin> set inds" using x unfolding i by simp
  with o n have "[4, 0, - 1, 4, - 1 :: real] ! 2 = - 1 \<and>
        [encode [0, 0, 10, 9] [0, 0, 10, 10, 3], zero_target, zero_target,
          encode [0, 0, 10, 5] [0, 0, 10, 10, 3], zero_target] ! 2 = zero_target"
    by blast
  with x show ?thesis unfolding example_call by simp
qed

subsection \<open>C9\<close>

text \<open>
  C9, as the code has it. The function has no validation step. An input with too few
  columns (proposals with fewer than five columns, at lines 65-68; ground truth with four
  columns and at least one box, at line 105) stops it with an IndexError at the first
  column it lacks, after the seeding and before any draw: the random state left is the
  freshly seeded one. Every input with five columns or more (surplus columns included) and
  a ground-truth box is accepted whatever the coordinates of its proposals, those that are
  not finite included: the call returns (for a foreground fraction between 0 and 1 and a
  batch size that is not negative), and a proposal with a NaN among its four coordinates
  fails a comparison of the filter and comes back with label -1 and target (0, 0, 0, 0).
\<close>

theorem C9_no_validation:
  fixes proposals :: "float64 ndarray"
  shows
  "(ncols proposals < 5 \<or> (rows gt_boxes \<noteq> [] \<and> ncols gt_boxes = 4) \<longrightarrow>
      proposal_target_layer ext self proposals gt_boxes s = (Inl IndexError, random_seed ext 0)) \<and>
   (0 \<le> foreground_fraction self \<and> foreground_fraction self \<le> 1 \<and> 0 \<le> batch_size self \<and>
    rectangular proposals \<and> 4 < ncols proposals \<and> 4 < ncols gt_boxes \<and> rows gt_boxes \<noteq> [] \<longrightarrow>
      (\<exists>labels targets s'.
         proposal_target_layer ext self proposals gt_boxes s = (Inr (labels, targets), s') \<and>
         (\<forall>i<length (rows proposals).
            (\<exists>j. 1 \<le> j \<and> j \<le> 4 \<and> rows proposals ! i ! j = NaN) \<longrightarrow>
            labels ! i = - 1 \<and> targets ! i = zero_target)))"
proof (intro conjI impI)
  assume "ncols proposals < 5 \<or> (rows gt_boxes \<noteq> [] \<and> ncols gt_boxes = 4)"
  then have "assign_labels ext self (drop_first_column proposals) gt_boxes = Inl IndexError"
    unfolding assign_labels_eq by auto
  then show "proposal_target_layer ext self proposals gt_boxes s = (Inl IndexError, random_seed ext 0)"
    by (simp add: proposal_target_layer_def)
next
  assume a: "0 \<le> foreground_fraction self \<and> foreground_fraction self \<le> 1 \<and> 0 \<le> batch_size self \<and>
    rectangular proposals \<and> 4 < ncols proposals \<and> 4 < ncols gt_boxes \<and> rows gt_boxes \<noteq> []"
  then obtain labels targets s' where
    r: "proposal_target_layer ext self proposals gt_boxes s = (Inr (labels, targets), s')"
    using proposal_target_layer_returns [of self proposals gt_boxes ext s] by auto
  from proposal_target_layer_stages [OF r] obtain inds where
    inds: "inds = filter (\<lambda>i. inside_image (im_shape ext) (tl (rows proposals ! i)))
              [0..<length (rows proposals)]"
    and out: "\<forall>i<length (rows proposals). i \<notin> set inds \<longrightarrow> labels ! i = - 1 \<and> targets ! i = zero_target"
    by blast
  have "labels ! i = - 1 \<and> targets ! i = zero_target"
    if i: "i < length (rows proposals)" and j: "1 \<le> j" "j \<le> 4" "rows proposals ! i ! j = NaN" for i j
  proof -
    have "5 \<le> length (rows proposals ! i)"
      using a i by (simp add: rectangular_def list_all_length)
    then have "tl (rows proposals ! i) ! (j - 1) = NaN" using j by (simp add: nth_tl)
    moreover have "j - 1 < 4" using j by simp
    ultimately have "\<not> inside_image (im_shape ext) (tl (rows proposals ! i))"
      by (rule inside_image_nan)
    then have "i \<notin> set inds" unfolding inds by simp
    with out i show ?thesis by simp
  qed
  with r show "\<exists>labels targets s'.
         proposal_target_layer ext self proposals gt_boxes s = (Inr (labels, targets), s') \<and>
         (\<forall>i<length (rows proposals).
            (\<exists>j. 1 \<le> j \<and> j \<le> 4 \<and> rows proposals ! i ! j = NaN) \<longrightarrow>
            labels ! i = - 1 \<and> targets ! i = zero_target)"
    by blast
qed

theorem C9_no_validation_witness:
  "ncols narrow_float_proposals < 5 \<and>
   proposal_target_layer float_externals (RCNNTarget_init 5) narrow_float_proposals example_gt_boxes
     (example_stream 1) = (Inl IndexError, example_stream 0) \<and>
   rectangular nan_proposals \<and> rows nan_proposals ! 1 ! 1 = NaN \<and>
   (\<exists>labels targets s'.
      proposal_target_layer float_externals (RCNNTarget_init 5) nan_proposals example_gt_boxes
        (example_stream 1) = (Inr (labels, targets), s') \<and>
      labels ! 1 = - 1 \<and> targets ! 1 = zero_target)"
proof -
  have c: "ncols narrow_float_proposals < 5" by (simp add: narrow_float_proposals_def)
  have w: "0 \<le> foreground_fraction (RCNNTarget_init 5) \<and> foreground_fraction (RCNNTarget_init 5) \<le> 1 \<and>
      0 \<le> batch_size (RCNNTarget_init 5) \<and> rectangular nan_proposals \<and> 4 < ncols nan_proposals \<and>
      4 < ncols example_gt_boxes \<and> rows example_gt_boxes \<noteq> []"
    by (simp add: RCNNTarget_init_def nan_proposals_def example_gt_boxes_def rectangular_def)
  have n: "1 < length (rows nan_proposals)" "rows nan_proposals ! 1 ! 1 = NaN"
    by (simp_all add: nan_proposals_def)
  from C9_no_validation [of narrow_float_proposals example_gt_boxes float_externals
      "RCNNTarget_init 5" "example_stream 1"] c
  have a: "proposal_target_layer float_externals (RCNNTarget_init 5) narrow_float_proposals
      example_gt_boxes (example_stream 1) = (Inl IndexError, example_stream 0)"
    by (simp add: float_externals_def)
  from C9_no_validation [of nan_proposals example_gt_boxes float_externals "RCNNTarget_init 5"
      "example_stream 1"] w
  obtain labels targets s' where
    r: "proposal_target_layer float_externals (RCNNTarget_init 5) nan_proposals example_gt_boxes
        (example_stream 1) = (Inr (labels, targets), s')"
    and x: "\<forall>i<length (rows nan_proposals).
            (\<exists>j. 1 \<le> j \<and> j \<le> 4 \<and> rows nan_proposals ! i ! j = NaN) \<longrightarrow>
            labels ! i = - 1 \<and> targets ! i = zero_target"
    by blast
  have "\<exists>j. 1 \<le> j \<and> j \<le> 4 \<and> rows nan_proposals ! 1 ! j = NaN"
    using n(2) by (intro exI [of _ 1]) simp
  with x n(1) have "labels ! 1 = - 1 \<and> targets ! 1 = zero_target" by blast
  with a c w n r show ?thesis by blast
qed

text \<open>
  The claim as the spec words it fails on both kinds of malformed input. Proposals with
  seven columns and a ground-truth box with six are not rejected: the call returns the
  labels and targets of the well-formed example, the surplus columns handed on to the
  encoder. A proposal whose \<open>x1\<close> is NaN is not rejected either: the call returns, with
  label -1 and a zero target for it.
\<close>

theorem C9_malformed_accepted_counterexample:
  "proposal_target_layer example_externals (RCNNTarget_init 5) wide_proposals wide_gt_boxes
     (example_stream 1) =
   (Inr ([4, 0, - 1, 4, - 1],
         [encode [0, 0, 10, 9, 7, 7] [0, 0, 10, 10, 3, 7], zero_target, zero_target,
          encode [0, 0, 10, 5, 7, 7] [0, 0, 10, 10, 3, 7], zero_target]),
    example_stream 0) \<and>
   proposal_target_layer float_externals (RCNNTarget_init 5) nan_proposals example_gt_boxes
     (example_stream 1) =
   (Inr ([4, - 1], [encode [0, 0, 10, 9] [0, 0, 10, 10, 3], zero_target]), example_stream 0)"
  by (simp add: model_defs example_defs float_externals_def nan_proposals_def finite_value_def
      zero_float64_def Let_def eval_nat_numeral)

subsection \<open>C10\<close>

text \<open>
  C10. With a foreground fraction between 0 and 1 and a batch size that is not negative,
  neither sampling call of lines 112-135 asks for more indices than it is given: when the
  foreground draw runs, the size \<open>len(fg_inds) - num_fg\<close> lies between 0 and
  \<open>len(fg_inds)\<close>; when the background draw runs, on the labels the foreground step
  left, the size \<open>len(bg_inds) - num_bg\<close> lies between 0 and \<open>len(bg_inds)\<close>;
  neither call raises, and the subsampling returns.
\<close>

theorem C10_no_overdraw:
  assumes "0 \<le> foreground_fraction self" and "foreground_fraction self \<le> 1"
    and "0 \<le> batch_size self"
  shows "(num_fg self < int (length (fg_inds l)) \<longrightarrow>
            0 \<le> int (length (fg_inds l)) - num_fg self \<and>
            int (length (fg_inds l)) - num_fg self \<le> int (length (fg_inds l)) \<and>
            fst (choice (fg_inds l) (int (length (fg_inds l)) - num_fg self) s) \<noteq> Inl ValueError) \<and>
         (\<forall>l1 s1. subsample_fg self l s = (Inr l1, s1) \<longrightarrow>
            num_bg self l1 < int (length (bg_inds l1)) \<longrightarrow>
            0 \<le> int (length (bg_inds l1)) - num_bg self l1 \<and>
            int (length (bg_inds l1)) - num_bg self l1 \<le> int (length (bg_inds l1)) \<and>
            fst (choice (bg_inds l1) (int (length (bg_inds l1)) - num_bg self l1) s1) \<noteq> Inl ValueError) \<and>
         (\<exists>l2 s2. subsample self l s = (Inr l2, s2))"
proof -
  note b = num_fg_bounds [OF assms]
  have draw: "fst (choice a sz r) \<noteq> Inl ValueError" if "0 \<le> sz" "sz \<le> int (length a)" for a sz r
    using choice_ok [OF that, of r] by auto
  have fg: "0 \<le> int (length (fg_inds l)) - num_fg self \<and>
            int (length (fg_inds l)) - num_fg self \<le> int (length (fg_inds l)) \<and>
            fst (choice (fg_inds l) (int (length (fg_inds l)) - num_fg self) s) \<noteq> Inl ValueError"
    if "num_fg self < int (length (fg_inds l))"
    using that b(2) by (intro conjI draw) simp_all
  have bg: "0 \<le> int (length (bg_inds l1)) - num_bg self l1 \<and>
            int (length (bg_inds l1)) - num_bg self l1 \<le> int (length (bg_inds l1)) \<and>
            fst (choice (bg_inds l1) (int (length (bg_inds l1)) - num_bg self l1) s1) \<noteq> Inl ValueError"
    if r: "subsample_fg self l s = (Inr l1, s1)" and lt: "num_bg self l1 < int (length (bg_inds l1))"
    for l1 s1
  proof -
    from subsample_fg_ok [OF b(2), of l s] r
    have "int (length (filter (\<lambda>x. 1 \<le> x) l1)) =
            min (int (length (filter (\<lambda>x. 1 \<le> x) l))) (num_fg self)"
      by auto
    then have "0 \<le> num_bg self l1" using b(3) by (simp add: num_bg_def)
    with lt show ?thesis by (intro conjI draw) simp_all
  qed
  from subsample_ok [OF b(2,3), of l s] have "\<exists>l2 s2. subsample self l s = (Inr l2, s2)" by blast
  with fg bg show ?thesis by blast
qed

theorem C10_no_overdraw_witness:
  "num_fg (RCNNTarget_init 5) < int (length (fg_inds example_labels)) \<and>
   int (length (fg_inds example_labels)) - num_fg (RCNNTarget_init 5) = 1 \<and>
   fst (choice (fg_inds example_labels)
          (int (length (fg_inds example_labels)) - num_fg (RCNNTarget_init 5)) (example_stream 0))
     \<noteq> Inl ValueError \<and>
   (\<exists>l2 s2. subsample (RCNNTarget_init 5) example_labels (example_stream 0) = (Inr l2, s2))"
proof -
  have n: "num_fg (RCNNTarget_init 5) = 16"
    by (simp add: num_fg_def py_int_def RCNNTarget_init_def)
  have f: "int (length (fg_inds example_labels)) = 17"
    by (simp add: length_fg_inds example_labels_def)
  have c: "0 \<le> foreground_fraction (RCNNTarget_init 5)" "foreground_fraction (RCNNTarget_init 5) \<le> 1"
    "0 \<le> batch_size (RCNNTarget_init 5)"
    by (simp_all add: RCNNTarget_init_def)
  from C10_no_overdraw [OF c, of example_labels "example_stream 0"] n f
  show ?thesis by simp
qed

end
